theory Spec2Isabelle
  imports Main "HOL-Library.Multiset" "HOL-Library.AList"
begin

section \<open>Text: the string operations of the program\<close>

text \<open>
  A Python \<open>str\<close> is modelled as a \<open>string\<close> whose characters are ASCII. The
  character classes are the ones Python uses on ASCII text: \<open>\d\<close> is a decimal digit,
  \<open>\w\<close> is a letter, a digit or the underscore, and \<open>\s\<close> and \<open>str.strip\<close> share
  the whitespace set (tab, line feed, vertical tab, form feed, carriage return, the four
  separators 0x1C..0x1F and the space).
\<close>

text \<open>
  \<open>is_ascii s\<close>: every character of \<open>s\<close> is below 128. On such text the
  operations below are Python's; the statements about headers, file names and cities
  are made for ASCII text.
\<close>

definition is_ascii :: "string \<Rightarrow> bool" where
  "is_ascii s = list_all (\<lambda>c. \<not> digit7 c) s"

definition is_digit :: "char \<Rightarrow> bool" where
  "is_digit c = (c \<in> set ''0123456789'')"

definition is_upper :: "char \<Rightarrow> bool" where
  "is_upper c = (c \<in> set ''ABCDEFGHIJKLMNOPQRSTUVWXYZ'')"

definition is_lower :: "char \<Rightarrow> bool" where
  "is_lower c = (c \<in> set ''abcdefghijklmnopqrstuvwxyz'')"

definition is_word :: "char \<Rightarrow> bool" where
  "is_word c = (is_digit c \<or> is_upper c \<or> is_lower c \<or> c = CHR ''_'')"

definition is_space :: "char \<Rightarrow> bool" where
  "is_space c = (c \<in> set [CHR 0x09, CHR 0x0A, CHR 0x0B, CHR 0x0C, CHR 0x0D,
                              CHR 0x1C, CHR 0x1D, CHR 0x1E, CHR 0x1F, CHR '' ''])"

definition lower_char :: "char \<Rightarrow> char" where
  "lower_char c =
     (case map_of (zip ''ABCDEFGHIJKLMNOPQRSTUVWXYZ'' ''abcdefghijklmnopqrstuvwxyz'') c of
        Some d \<Rightarrow> d | None \<Rightarrow> c)"

definition upper_char :: "char \<Rightarrow> char" where
  "upper_char c =
     (case map_of (zip ''abcdefghijklmnopqrstuvwxyz'' ''ABCDEFGHIJKLMNOPQRSTUVWXYZ'') c of
        Some d \<Rightarrow> d | None \<Rightarrow> c)"

definition lower :: "string \<Rightarrow> string" where
  "lower s = map lower_char s"

definition upper :: "string \<Rightarrow> string" where
  "upper s = map upper_char s"

text \<open>\<open>str.strip()\<close>: whitespace is removed at both ends.\<close>

definition strip :: "string \<Rightarrow> string" where
  "strip s = rev (dropWhile is_space (rev (dropWhile is_space s)))"

text \<open>\<open>sep.join(parts)\<close>.\<close>

fun join :: "string \<Rightarrow> string list \<Rightarrow> string" where
  "join sep [] = []"
| "join sep [x] = x"
| "join sep (x # y # ys) = x @ sep @ join sep (y # ys)"

text \<open>\<open>p in s\<close> on strings.\<close>

fun str_in :: "string \<Rightarrow> string \<Rightarrow> bool" where
  "str_in p [] = (p = [])"
| "str_in p (c # cs) = (take (length p) (c # cs) = p \<or> str_in p cs)"

text \<open>\<open>s.endswith(suf)\<close>.\<close>

definition endswith :: "string \<Rightarrow> string \<Rightarrow> bool" where
  "endswith s suf = (length suf \<le> length s \<and> drop (length s - length suf) s = suf)"

text \<open>
  \<open>s.split(sep)\<close> for a separator that is not empty: the pieces between the
  non-overlapping occurrences of \<open>sep\<close>, found from the left. The accumulator holds the
  current piece, reversed. (Python raises on an empty separator; the program never
  passes one.)
\<close>

function split_acc :: "string \<Rightarrow> string \<Rightarrow> string \<Rightarrow> string list" where
  "split_acc sep acc [] = [rev acc]"
| "split_acc sep acc (c # cs) =
     (if sep \<noteq> [] \<and> take (length sep) (c # cs) = sep
      then rev acc # split_acc sep [] (drop (length sep) (c # cs))
      else split_acc sep (c # acc) cs)"
  by pat_completeness auto
termination
  by (relation "measure (\<lambda>(sep, acc, s). length s)") auto

definition split :: "string \<Rightarrow> string \<Rightarrow> string list" where
  "split s sep = split_acc sep [] s"

text \<open>\<open>s.replace(c, '')\<close> for a one-character \<open>c\<close>.\<close>

definition remove_char :: "char \<Rightarrow> string \<Rightarrow> string" where
  "remove_char c s = filter (\<lambda>x. x \<noteq> c) s"

text \<open>\<open>str(n)\<close> for an integer.\<close>

function show_nat :: "nat \<Rightarrow> string" where
  "show_nat n =
     (if n < 10 then [''0123456789'' ! n]
      else show_nat (n div 10) @ [''0123456789'' ! (n mod 10)])"
  by pat_completeness auto
termination
  by (relation "measure id") auto

definition show_int :: "int \<Rightarrow> string" where
  "show_int i = (if i < 0 then CHR ''-'' # show_nat (nat (- i)) else show_nat (nat i))"


section \<open>Cells\<close>

text \<open>
  A cell of a table is missing (\<open>NaN\<close>, what the readers give for an empty cell, and
  what \<open>pd.isna\<close> recognises), a text, or an integer (the sequence numbers the
  program writes, and numeric cells of the sender workbook, which is read without
  \<open>dtype=str\<close>).
\<close>

datatype cell = NaN | Str string | Num int

definition isna :: "cell \<Rightarrow> bool" where
  "isna v = (v = NaN)"

text \<open>\<open>str(v)\<close>, and \<open>Series.astype(str)\<close> cell by cell: a missing cell becomes the text \<open>nan\<close>.\<close>

fun py_str :: "cell \<Rightarrow> string" where
  "py_str NaN = ''nan''"
| "py_str (Str s) = s"
| "py_str (Num i) = show_int i"

text \<open>\<open>Series.fillna('')\<close> cell by cell.\<close>

fun fillna_empty :: "cell \<Rightarrow> cell" where
  "fillna_empty NaN = Str []"
| "fillna_empty v = v"


section \<open>PincodeNormalizer: \<open>clean_pincode\<close> and \<open>extract_pincode_from_text\<close>\<close>

text \<open>\<open>re.sub(r'\D', '', s)\<close>.\<close>

definition digits_only :: "string \<Rightarrow> string" where
  "digits_only s = filter is_digit s"

definition clean_pincode :: "cell \<Rightarrow> string" where
  "clean_pincode pincode =
     (if isna pincode then []
      else let pincode_str = strip (py_str pincode);
               digits = digits_only pincode_str
           in if length digits = 6 then digits else [])"

text \<open>
  The two searches of \<open>extract_pincode_from_text\<close>. \<open>\b\<close> holds at position \<open>i\<close> when
  exactly one of the characters before and after the position is a word character (a
  missing neighbour counts as not one). \<open>re.search\<close> returns the match at the leftmost
  position where the pattern matches.
\<close>

definition word_before :: "string \<Rightarrow> nat \<Rightarrow> bool" where
  "word_before s i = (0 < i \<and> i \<le> length s \<and> is_word (s ! (i - 1)))"

definition word_after :: "string \<Rightarrow> nat \<Rightarrow> bool" where
  "word_after s i = (i < length s \<and> is_word (s ! i))"

definition at_boundary :: "string \<Rightarrow> nat \<Rightarrow> bool" where
  "at_boundary s i = (word_before s i \<noteq> word_after s i)"

text \<open>\<open>\d{n}\<close> at position \<open>i\<close>.\<close>

definition digits_at :: "string \<Rightarrow> nat \<Rightarrow> nat \<Rightarrow> bool" where
  "digits_at s i n = (i + n \<le> length s \<and> list_all is_digit (take n (drop i s)))"

text \<open>\<open>\b\d{6}\b\<close> at position \<open>i\<close>.\<close>

definition match6_at :: "string \<Rightarrow> nat \<Rightarrow> bool" where
  "match6_at s i = (at_boundary s i \<and> digits_at s i 6 \<and> at_boundary s (i + 6))"

text \<open>
  \<open>\b\d{3}[\s-]?\d{3}\b\<close> at position \<open>i\<close>, with the length of the match. The optional
  separator is greedy: the matcher first tries to consume a whitespace character or a
  hyphen, and tries the pattern without one only when that fails.
\<close>

definition is_sep :: "char \<Rightarrow> bool" where
  "is_sep c = (is_space c \<or> c = CHR ''-'')"

definition match33_at :: "string \<Rightarrow> nat \<Rightarrow> nat option" where
  "match33_at s i =
     (if at_boundary s i \<and> digits_at s i 3 then
        (if i + 3 < length s \<and> is_sep (s ! (i + 3)) \<and> digits_at s (i + 4) 3
              \<and> at_boundary s (i + 7) then Some 7
         else if digits_at s (i + 3) 3 \<and> at_boundary s (i + 6) then Some 6
         else None)
      else None)"

fun first_some :: "(nat \<Rightarrow> 'a option) \<Rightarrow> nat list \<Rightarrow> (nat \<times> 'a) option" where
  "first_some f [] = None"
| "first_some f (i # is) = (case f i of Some v \<Rightarrow> Some (i, v) | None \<Rightarrow> first_some f is)"

definition search6 :: "string \<Rightarrow> string option" where
  "search6 s = map_option (\<lambda>i. take 6 (drop i s)) (find (match6_at s) [0..<Suc (length s)])"

definition search33 :: "string \<Rightarrow> string option" where
  "search33 s =
     map_option (\<lambda>(i, n). take n (drop i s)) (first_some (match33_at s) [0..<Suc (length s)])"

definition extract_pincode_from_text :: "cell \<Rightarrow> string" where
  "extract_pincode_from_text text =
     (if isna text then []
      else let t = py_str text in
        (case search6 t of
           Some pincode \<Rightarrow> pincode
         | None \<Rightarrow>
            (case search33 t of
               Some m \<Rightarrow> remove_char CHR ''-'' (remove_char CHR '' '' m)
             | None \<Rightarrow> [])))"


section \<open>Tables\<close>

text \<open>
  A DataFrame is the list of its column labels, in order, and the list of its rows; a
  row gives every label its cell (what a row holds under a string that is not a label
  of the frame is never read). The readers return frames whose labels are pairwise
  distinct. The model follows pandas on such frames; where a rename maps two columns
  onto one label, the label is repeated in \<open>labels\<close>, and the statements below that
  depend on the columns of a frame assume that no rename collides.
\<close>

type_synonym row = "string \<Rightarrow> cell"

record table =
  labels :: "string list"
  rows :: "row list"

datatype exc =
    IOError string | KeyError string | AttributeError | RegexError string
  | TypeError | ValueError | InvalidIndexError

text \<open>\<open>DataFrame.empty\<close>: no columns or no rows.\<close>

definition df_empty :: "table \<Rightarrow> bool" where
  "df_empty df = (labels df = [] \<or> rows df = [])"

text \<open>\<open>df[c] = v\<close> for a scalar \<open>v\<close>, and for one value per row: an existing column is
  overwritten in place, a new one is appended at the right.\<close>

definition set_label :: "string list \<Rightarrow> string \<Rightarrow> string list" where
  "set_label cols c = (if c \<in> set cols then cols else cols @ [c])"

definition assign_const :: "table \<Rightarrow> string \<Rightarrow> cell \<Rightarrow> table" where
  "assign_const df c v =
     \<lparr>labels = set_label (labels df) c, rows = map (\<lambda>r. r(c := v)) (rows df)\<rparr>"

definition assign_column :: "table \<Rightarrow> string \<Rightarrow> cell list \<Rightarrow> table" where
  "assign_column df c vs =
     \<lparr>labels = set_label (labels df) c, rows = map2 (\<lambda>r v. r(c := v)) (rows df) vs\<rparr>"

text \<open>\<open>df.rename(columns=mapping)\<close>, the mapping a dict in insertion order: a label that
  is a key is replaced, the others stay. When two columns are renamed onto one label,
  pandas keeps both under that label: the label is repeated in \<open>labels\<close>, and a row,
  which holds one cell per label, keeps the cell of the first of them. The statements
  about a renamed frame are made under the hypothesis that its labels are distinct.\<close>

definition new_label :: "(string \<times> string) list \<Rightarrow> string \<Rightarrow> string" where
  "new_label m l = (case map_of m l of Some t \<Rightarrow> t | None \<Rightarrow> l)"

definition rename_columns :: "table \<Rightarrow> (string \<times> string) list \<Rightarrow> table" where
  "rename_columns df m =
     \<lparr>labels = map (new_label m) (labels df),
      rows = map (\<lambda>r l'. (case find (\<lambda>l. new_label m l = l') (labels df) of
                              Some l \<Rightarrow> r l | None \<Rightarrow> r l')) (rows df)\<rparr>"

text \<open>\<open>df[cols]\<close> for a list of labels: \<open>KeyError\<close> when one is missing, else the
  columns in the order asked for.\<close>

definition select_columns :: "table \<Rightarrow> string list \<Rightarrow> exc + table" where
  "select_columns df cols =
     (case find (\<lambda>c. c \<notin> set (labels df)) cols of
        Some c \<Rightarrow> Inl (KeyError c)
      | None \<Rightarrow> Inr \<lparr>labels = concat (map (\<lambda>c. filter (\<lambda>l. l = c) (labels df)) cols),
                     rows = rows df\<rparr>)"

text \<open>\<open>pd.concat(frames, ignore_index=True)\<close>. Every frame the program passes is a
  projection onto the same label list; frames whose labels differ (one of them repeats
  a label) make pandas raise.\<close>

definition py_concat :: "table list \<Rightarrow> exc + table" where
  "py_concat dfs =
     (case dfs of
        [] \<Rightarrow> Inl ValueError
      | d # ds \<Rightarrow>
          if list_all (\<lambda>x. labels x = labels d) ds
          then Inr \<lparr>labels = labels d, rows = concat (map rows dfs)\<rparr>
          else Inl InvalidIndexError)"


section \<open>The log\<close>

text \<open>
  \<open>log_callback\<close> is called with one text per line. A line is that text; where the
  text interpolates an exception (\<open>str(e)\<close>) or is \<open>traceback.format_exc()\<close>, the
  exception is kept as it is.
\<close>

datatype logline = Line string | ErrorLine string exc | Traceback exc

definition quoted :: "string \<Rightarrow> string" where
  "quoted s = [CHR 0x27] @ s @ [CHR 0x27]"


section \<open>SchemaMapper: \<open>get_matching_columns\<close> and \<open>get_single_matching_column\<close>\<close>

definition alias_names :: "string \<Rightarrow> string list" where
  "alias_names possible_names = map strip (split possible_names ''Or'')"

definition matching :: "string list \<Rightarrow> string \<Rightarrow> string list" where
  "matching cols name = filter (\<lambda>col. lower (strip col) = lower name) cols"

definition get_matching_columns :: "table \<Rightarrow> string \<Rightarrow> string list" where
  "get_matching_columns df possible_names =
     concat (map (matching (labels df)) (alias_names possible_names))"

fun first_matching :: "string list \<Rightarrow> string list \<Rightarrow> string option" where
  "first_matching cols [] = None"
| "first_matching cols (name # names) =
     (case matching cols name of [] \<Rightarrow> first_matching cols names | col # _ \<Rightarrow> Some col)"

definition get_single_matching_column :: "table \<Rightarrow> string \<Rightarrow> string option" where
  "get_single_matching_column df possible_names =
     first_matching (labels df) (alias_names possible_names)"


section \<open>ReferenceTableLoader: \<open>load_pin_database\<close>\<close>

text \<open>
  The two attempts to read the workbook are inputs: the sheet \<open>TBLPINCITY\<close>, and the
  first sheet with its name. The loaded table is the list of its (Pincode, City) rows.
\<close>

definition truthy :: "string option \<Rightarrow> bool" where
  "truthy v = (case v of None \<Rightarrow> False | Some s \<Rightarrow> s \<noteq> [])"

definition exact_columns :: "string list \<Rightarrow> string option \<times> string option" where
  "exact_columns cols =
     fold (\<lambda>col (p, c).
             if upper (strip col) = ''PINCODE'' then (Some col, c)
             else if upper (strip col) = ''CITY'' then (p, Some col)
             else (p, c)) cols (None, None)"

definition identify_columns :: "string list \<Rightarrow> logline list \<times> (string \<times> string) option" where
  "identify_columns cols =
     (let (p0, c0) = exact_columns cols;
          (l1, p1) = (if \<not> truthy p0 then
                        (case find (\<lambda>col. str_in ''PIN'' (upper col)) cols of
                           Some col \<Rightarrow> ([Line (''Using '' @ quoted col @ '' as pincode column'')], Some col)
                         | None \<Rightarrow> ([], p0))
                      else ([], p0));
          (l2, c1) = (if \<not> truthy c0 then
                        (case find (\<lambda>col. str_in ''CITY'' (upper col)) cols of
                           Some col \<Rightarrow> ([Line (''Using '' @ quoted col @ '' as city column'')], Some col)
                         | None \<Rightarrow> ([], c0))
                      else ([], c0));
          fallback = (case cols of
                        a # b # _ \<Rightarrow>
                          (l1 @ l2 @ [Line (''Using first column '' @ quoted a @ '' as pincode and second column ''
                                            @ quoted b @ '' as city'')], Some (a, b))
                      | _ \<Rightarrow>
                          (l1 @ l2 @ [Line ''Error: Could not identify pincode and city columns in PIN file.  Check PIN.xlsx file structure.''],
                           None))
      in if \<not> truthy p1 \<or> \<not> truthy c1 then fallback
         else (case (p1, c1) of
                 (Some p, Some c) \<Rightarrow> (l1 @ l2, Some (p, c))
               | _ \<Rightarrow> fallback))"

definition standardize :: "string \<Rightarrow> string \<Rightarrow> row \<Rightarrow> string \<times> string" where
  "standardize pincode_col city_col r =
     (clean_pincode (Str (py_str (r pincode_col))), upper (strip (py_str (r city_col))))"

definition load_sheet :: "table \<Rightarrow> logline list \<times> (string \<times> string) list" where
  "load_sheet pin_df =
     (let l0 = [Line (''Found columns in PIN file: '' @ join '', '' (labels pin_df))];
          (l1, ident) = identify_columns (labels pin_df)
      in case ident of
           None \<Rightarrow> (l0 @ l1, [])
         | Some (pincode_col, city_col) \<Rightarrow>
             if pincode_col \<notin> set (labels pin_df) \<or> city_col \<notin> set (labels pin_df)
             then (l0 @ l1 @ [Line (''Error: Pincode column '' @ quoted pincode_col @ '' or City column ''
                                    @ quoted city_col @ '' not found in PIN.xlsx.  Check column names.'')], [])
             else
               (let standard_df = map (standardize pincode_col city_col) (rows pin_df);
                    valid_df = filter (\<lambda>(p, c). length p = 6) standard_df
                in (l0 @ l1 @ [Line (''Loaded '' @ show_nat (length valid_df)
                                     @ '' valid pincodes from PIN database'')], valid_df)))"

definition load_pin_database ::
  "string \<Rightarrow> exc + table \<Rightarrow> exc + (string \<times> table) \<Rightarrow> logline list \<times> (string \<times> string) list" where
  "load_pin_database pin_file_path tblpincity first_sheet =
     (let l0 = [Line (''Loading PIN database from: '' @ pin_file_path)] in
      case tblpincity of
        Inr pin_df \<Rightarrow>
          (let (l, db) = load_sheet pin_df
           in (l0 @ [Line ''Successfully loaded TBLPINCITY sheet from PIN.xlsx''] @ l, db))
      | Inl e \<Rightarrow>
          (let l1 = l0 @ [ErrorLine ''TBLPINCITY sheet not found: '' e,
                          Line ''Trying to read the first sheet instead...'']
           in case first_sheet of
                Inr (name, pin_df) \<Rightarrow>
                  (let (l, db) = load_sheet pin_df
                   in (l1 @ [Line (''Using sheet: '' @ name)] @ l, db))
              | Inl e2 \<Rightarrow>
                  (l1 @ [ErrorLine ''Error loading PIN database: '' e2, Traceback e2], [])))"


section \<open>The backfill pass: \<open>process_pincodes_and_cities\<close>\<close>

text \<open>Python's truth value of a cell: an empty text and the number 0 are false.\<close>

fun cell_truthy :: "cell \<Rightarrow> bool" where
  "cell_truthy NaN = True"
| "cell_truthy (Str s) = (s \<noteq> [])"
| "cell_truthy (Num i) = (i \<noteq> 0)"

text \<open>The inner loop over the three address fields, left at the first extraction that
  is not empty.\<close>

fun first_pin :: "string list \<Rightarrow> row \<Rightarrow> string list \<Rightarrow> string option" where
  "first_pin cols r [] = None"
| "first_pin cols r (col # rest) =
     (if col \<in> set cols then
        (let pin = extract_pincode_from_text (r col)
         in if pin \<noteq> [] then Some pin else first_pin cols r rest)
      else first_pin cols r rest)"

text \<open>One turn of each row loop: the row as it is left, the increment of the counter,
  and for the city loop the lines logged. A turn reads and writes its own row only.\<close>

definition pincode_step :: "string list \<Rightarrow> row \<Rightarrow> row \<times> nat" where
  "pincode_step cols r =
     (if \<not> cell_truthy (r ''AddrePincode'') then
        (case first_pin cols r [''AddreADD1'', ''Addre_ADD2'', ''Addre_ADD3''] of
           Some pin \<Rightarrow> (r(''AddrePincode'' := Str pin), 1)
         | None \<Rightarrow> (r, 0))
      else (r, 0))"

text \<open>\<open>pin_df[pin_df['Pincode'] == v]\<close> and, when it is not empty, \<open>.iloc[0]['City']\<close>.\<close>

definition pin_matches :: "(string \<times> string) list \<Rightarrow> cell \<Rightarrow> (string \<times> string) list" where
  "pin_matches pin_df v = filter (\<lambda>(p, c). Str p = v) pin_df"

definition city_step :: "(string \<times> string) list \<Rightarrow> row \<Rightarrow> row \<times> nat \<times> logline list" where
  "city_step pin_df r =
     (if (\<not> cell_truthy (r ''AddreCity'') \<or> r ''AddreCity'' = Str [])
          \<and> cell_truthy (r ''AddrePincode'') then
        (case pin_matches pin_df (r ''AddrePincode'') of
           (p, c) # _ \<Rightarrow> (r(''AddreCity'' := Str c), 1, [])
         | [] \<Rightarrow> (r, 0, [Line (''Pincode '' @ py_str (r ''AddrePincode'')
                                @ '' not found in PIN database.'')]))
      else (r, 0, []))"

definition process_pincodes :: "table \<Rightarrow> logline list \<times> table" where
  "process_pincodes df =
     (if ''AddrePincode'' \<in> set (labels df) then
        (let cleaned = map (\<lambda>r. r(''AddrePincode'' :=
                                   Str (clean_pincode (Str (py_str (fillna_empty (r ''AddrePincode'')))))))
                           (rows df);
             steps = map (pincode_step (labels df)) cleaned
         in ([Line ''Processing pincodes...'',
              Line (''Extracted '' @ show_nat (sum_list (map snd steps))
                    @ '' pincodes from address fields'')],
             df\<lparr>rows := map fst steps\<rparr>))
      else ([Line ''No AddrePincode column found in the input data''],
            assign_const df ''AddrePincode'' (Str [])))"

definition process_cities :: "table \<Rightarrow> (string \<times> string) list \<Rightarrow> logline list \<times> table" where
  "process_cities df pin_df =
     (if ''AddreCity'' \<in> set (labels df) then
        (let stripped = map (\<lambda>r. r(''AddreCity'' :=
                                    Str (strip (py_str (fillna_empty (r ''AddreCity''))))))
                            (rows df);
             steps = map (city_step pin_df) stripped
         in ([Line ''Processing cities...'']
             @ concat (map (\<lambda>(r, n, l). l) steps)
             @ [Line (''Mapped '' @ show_nat (sum_list (map (\<lambda>(r, n, l). n) steps))
                      @ '' cities from pincodes'')],
             df\<lparr>rows := map (\<lambda>(r, n, l). r) steps\<rparr>))
      else ([Line ''No AddreCity column found in the input data''],
            assign_const df ''AddreCity'' (Str [])))"

definition process_pincodes_and_cities ::
  "table \<Rightarrow> (string \<times> string) list \<Rightarrow> logline list \<times> table" where
  "process_pincodes_and_cities df pin_df =
     (let (l1, df1) = process_pincodes df;
          (l2, df2) = process_cities df1 pin_df
      in ([Line ''Processing pincodes and cities for the merged dataframe...''] @ l1 @ l2, df2))"


section \<open>SenderResolver\<close>

text \<open>
  \<open>Series.str.contains(pat, na=False, case=False)\<close> compiles \<open>pat\<close> as a regular
  expression with \<open>re.IGNORECASE\<close> and searches it in every text cell; a cell that is
  not a text counts as no match. A pattern without metacharacters is found in a text
  exactly where it occurs as a substring, letter case ignored. The verdict of Python's
  \<open>re\<close> module on any other pattern is an input of the model: \<open>engine pat\<close> is
  \<open>None\<close> when \<open>pat\<close> does not compile, and otherwise tells the texts in which
  \<open>pat\<close> is found.
\<close>

type_synonym regex_engine = "string \<Rightarrow> (string \<Rightarrow> bool) option"

definition is_literal :: "string \<Rightarrow> bool" where
  "is_literal pat = list_all (\<lambda>c. c \<notin> set (''.^$*+?{}[]|()'' @ [CHR 0x5C])) pat"

definition ci_contains :: "string \<Rightarrow> string \<Rightarrow> bool" where
  "ci_contains pat s = str_in (lower pat) (lower s)"

definition compile_ignorecase :: "regex_engine \<Rightarrow> string \<Rightarrow> (string \<Rightarrow> bool) option" where
  "compile_ignorecase engine pat = (if is_literal pat then Some (ci_contains pat) else engine pat)"

fun is_text :: "cell \<Rightarrow> bool" where
  "is_text (Str s) = True"
| "is_text v = False"

fun contains_cell :: "(string \<Rightarrow> bool) \<Rightarrow> cell \<Rightarrow> bool" where
  "contains_cell m (Str s) = m s"
| "contains_cell m v = False"

text \<open>\<open>filename.split('-')[0].split('.')[0].strip()\<close>; \<open>split\<close> never returns the
  empty list.\<close>

definition base_filename :: "string \<Rightarrow> string" where
  "base_filename filename = strip (hd (split (hd (split filename ''-'')) ''.''))"

text \<open>
  The rows of the sender table that match a file. Looking the column up raises
  \<open>KeyError\<close> when the table has none of that label; the \<open>.str\<close> accessor raises
  \<open>AttributeError\<close> on a column without any text cell (pandas reads it as a numeric
  column); a pattern that does not compile raises.
\<close>

definition find_sender :: "regex_engine \<Rightarrow> table \<Rightarrow> string \<Rightarrow> exc + row list" where
  "find_sender engine sender_details key =
     (if df_empty sender_details then Inr []
      else if ''File Name Contain'' \<notin> set (labels sender_details)
        then Inl (KeyError ''File Name Contain'')
      else if \<not> list_ex (\<lambda>r. is_text (r ''File Name Contain'')) (rows sender_details)
        then Inl AttributeError
      else (case compile_ignorecase engine key of
              None \<Rightarrow> Inl (RegexError key)
            | Some m \<Rightarrow>
                Inr (filter (\<lambda>r. contains_cell m (r ''File Name Contain'')) (rows sender_details))))"


section \<open>RecordEnricher: the per-file block of \<open>merge_customer_files\<close>\<close>

definition column_mappings :: "(string \<times> string) list" where
  "column_mappings =
     [(''SL'', ''SL Or sr Or srno Or SR. NO. Or sr. no.''),
      (''Barcode'', ''Barcode Or Barcodes Or awb Or QR Post Or POD Or pod Or Bar code  Or Bar code''),
      (''REF'', ''REF Or reference Or code Or Reference No. Or Ref.No. Or Notice Ref. No. Or ref_no Or Ref. No.''),
      (''AddrePincode'', ''AddrePincode Or CustAddrePincode Or CustAddrePincode Or Pincode Or Pin code Or Pin Or Pin.Code Or PIN CODE_DPM Or PIN_CODE''),
      (''AddreName'', ''Name Or CustomerName Or name borower Or Customer Name Or CUSTOMER FULL NAME''),
      (''AddreCity'', ''AddreCity Or CustAddreCity Or City Or district Or Dist_ Or Or CUSTADR_CITY Or DISTRICT Or DISTRICT_DPM'')]"

definition address_columns :: string where
  "address_columns = ''add 1 Or add 2 Or add 3 Or add_1 Or add_2 Or add_3 Or add1 Or add2 Or add3 Or CustAddreADD1 Or CustAddre_ADD2 Or CustAddre_ADD3 Or  State Or Customeradd1 Or Customeradd2 Or Customeradd3 Or Customeradd4 Or address1 Or address2 Or address3 Or address4 Or Address Or Customer Address Or Add_1 Or add Or ADD1 Or ADD2 Or CUSTOMER ADDRESS 1 Or CUSTOMER ADDRESS 2 Or add_1 Or CUSTOMER_ADDRESS Or  ADDRESS ''"

definition output_columns :: "string list" where
  "output_columns =
     [''SL'', ''Barcode'', ''REF'', ''SenderCity'', ''SenderPincode'', ''SenderName'', ''SenderADD1'',
      ''SenderADD2'', ''SenderADD3'', ''AddreCity'', ''AddrePincode'', ''AddreName'', ''AddreADD1'',
      ''Addre_ADD2'', ''Addre_ADD3'', ''ADDREMAIL'', ''ADDRMOBILE'', ''SENDERMOBILE'', ''Weight'',
      ''InsVal'', ''PrPdAmount'', ''PrPdType'', ''FMLisenceId'', ''FMSomNo'', ''Input File Name'', ''Sheet Name'']"

definition sender_fields :: "string list" where
  "sender_fields =
     [''SenderCity'', ''SenderPincode'', ''SenderName'', ''SenderADD1'', ''SenderADD2'', ''SenderADD3'']"

text \<open>The loop that builds \<open>actual_mapping\<close>, a dict from source column to target
  field, with the lines it logs. A source column whose name is the empty text is false
  for \<open>if source_col\<close> and is not mapped.\<close>

definition build_mapping :: "table \<Rightarrow> logline list \<times> (string \<times> string) list" where
  "build_mapping df =
     fold (\<lambda>(target_col, possible_names) (l, m).
             (case get_single_matching_column df possible_names of
                Some source_col \<Rightarrow>
                  if source_col \<noteq> []
                  then (l @ [Line (''Mapped '' @ quoted source_col @ '' to '' @ quoted target_col)],
                        AList.update source_col target_col m)
                  else (l, m)
              | None \<Rightarrow> (l, m)))
          column_mappings ([], [])"

text \<open>
  The composite address of one row: \<open>', '.join(filter(None, x))\<close> over the cells of
  the matched columns after \<open>fillna('')\<close>, then \<open>strip\<close>. \<open>filter(None, ...)\<close> drops
  the cells that are false (the empty texts); \<open>join\<close> raises \<open>TypeError\<close> on a cell
  that is not a text.
\<close>

definition address_text :: "string list \<Rightarrow> row \<Rightarrow> exc + cell" where
  "address_text address_cols r =
     (let parts = filter cell_truthy (map (\<lambda>c. fillna_empty (r c)) address_cols)
      in if list_all is_text parts
         then Inr (Str (strip (join '', '' (map py_str parts))))
         else Inl TypeError)"

fun collect :: "(exc + 'a) list \<Rightarrow> exc + 'a list" where
  "collect [] = Inr []"
| "collect (Inl e # xs) = Inl e"
| "collect (Inr v # xs) = (case collect xs of Inl e \<Rightarrow> Inl e | Inr vs \<Rightarrow> Inr (v # vs))"

text \<open>On a frame without rows, \<open>DataFrame.apply(..., axis=1)\<close> returns a frame, which
  has no \<open>.str\<close> accessor: \<open>AttributeError\<close>.\<close>

definition add_address :: "table \<Rightarrow> logline list \<times> (exc + table)" where
  "add_address df =
     (let address_cols = get_matching_columns df address_columns in
      if address_cols \<noteq> [] then
        ([Line (''Found address columns: '' @ join '', '' address_cols)],
         if rows df = [] then Inl AttributeError
         else (case collect (map (address_text address_cols) (rows df)) of
                 Inl e \<Rightarrow> Inl e
               | Inr vs \<Rightarrow> Inr (assign_column df ''AddreADD1'' vs)))
      else ([], Inr df))"

text \<open>\<open>sender_info.get(field, '')\<close>, \<open>sender_info\<close> a row of the sender table.\<close>

definition sender_get :: "table \<Rightarrow> row \<Rightarrow> string \<Rightarrow> cell" where
  "sender_get sender_details sender_info field =
     (if field \<in> set (labels sender_details) then sender_info field else Str [])"

definition add_sender_information ::
  "string \<Rightarrow> table \<Rightarrow> row list \<Rightarrow> table \<Rightarrow> logline list \<times> table" where
  "add_sender_information filename sender_details sender_row df =
     (case sender_row of
        sender_info # _ \<Rightarrow>
          ([], fold (\<lambda>field d. assign_const d field (sender_get sender_details sender_info field))
                    sender_fields df)
      | [] \<Rightarrow>
          ([Line (''No sender details found for '' @ filename)],
           fold (\<lambda>field d. assign_const d field (Str [])) sender_fields df))"

definition ensure_output_columns :: "table \<Rightarrow> table" where
  "ensure_output_columns df =
     fold (\<lambda>col d. if col \<notin> set (labels d) then assign_const d col (Str []) else d)
          output_columns df"

text \<open>
  The block guarded by \<open>if not sender_row.empty\<close>, in its three parts: the rename
  by the mapping found (\<open>rename\<close> raises no \<open>KeyError\<close>, so the handler around it is
  never entered); the composite address; and the rest, from the sender fields to the
  projection onto the output columns, which gives the frame that is appended to
  \<open>merged_dataframes\<close>. An exception leaves the block with the lines logged so far.
\<close>

definition apply_mapping :: "table \<Rightarrow> logline list \<times> table" where
  "apply_mapping current_df =
     (let (l, actual_mapping) = build_mapping current_df
      in (l, if actual_mapping \<noteq> [] then rename_columns current_df actual_mapping
             else current_df))"

definition complete_frame ::
  "string \<Rightarrow> string \<Rightarrow> table \<Rightarrow> row list \<Rightarrow> table \<Rightarrow> logline list \<times> (exc + table)" where
  "complete_frame filename sheet_name sender_details sender_row df =
     (let (l, df3) = add_sender_information filename sender_details sender_row df;
          df4 = assign_column df3 ''SL'' (map (\<lambda>i. Num (int i)) [1..<Suc (length (rows df3))]);
          df5 = ensure_output_columns df4;
          df6 = assign_const df5 ''Input File Name'' (Str filename);
          df7 = assign_const df6 ''Sheet Name'' (Str sheet_name)
      in (l, select_columns df7 output_columns))"

definition enrich ::
  "string \<Rightarrow> string \<Rightarrow> table \<Rightarrow> row list \<Rightarrow> table \<Rightarrow> logline list \<times> (exc + table)" where
  "enrich filename sheet_name sender_details sender_row current_df =
     (let (l1, df1) = apply_mapping current_df;
          (l2, r2) = add_address df1
      in case r2 of
           Inl e \<Rightarrow> (l1 @ l2, Inl e)
         | Inr df2 \<Rightarrow>
             (let (l3, r) = complete_frame filename sheet_name sender_details sender_row df2
              in (l1 @ l2 @ l3, r)))"

text \<open>The body of the per-file \<open>try\<close> once the file is read: the lines logged, and an
  exception, or the frame to append, or nothing to append when no sender row matches.\<close>

definition try_file ::
  "regex_engine \<Rightarrow> table \<Rightarrow> string \<Rightarrow> string \<Rightarrow> table
     \<Rightarrow> logline list \<times> (exc + table option)" where
  "try_file engine sender_details filename sheet_name current_df =
     (let l0 = [Line (''Successfully read file with '' @ show_nat (length (rows current_df))
                      @ '' rows and '' @ show_nat (length (labels current_df)) @ '' columns''),
                Line (''Columns found: '' @ join '', '' (take 5 (labels current_df))
                      @ (if length (labels current_df) > 5 then ''...'' else []))]
      in case find_sender engine sender_details (base_filename filename) of
           Inl e \<Rightarrow> (l0, Inl e)
         | Inr sender_row \<Rightarrow>
             if sender_row \<noteq> [] then
               (let l1 = l0 @ [Line (''Found matching sender details for ''
                                     @ quoted (base_filename filename))];
                    (l2, r) = enrich filename sheet_name sender_details sender_row current_df
                in (l1 @ l2, map_sum id Some r))
             else (l0, Inr None))"


section \<open>MergePipeline: \<open>merge_customer_files\<close>\<close>

text \<open>
  An entry of the input directory, with what reading it gives: an exception, or the
  frame and, for a workbook, the name of its first sheet.
\<close>

record input_file =
  fname :: string
  read_result :: "exc + (table \<times> string)"

datatype outcome = Appended table | NoSender | Errored

definition is_excel :: "string \<Rightarrow> bool" where
  "is_excel filename = (endswith filename ''.xlsx'' \<or> endswith filename ''.xls'')"

definition is_input :: "string \<Rightarrow> bool" where
  "is_input filename =
     (endswith filename ''.txt'' \<or> endswith filename ''.csv''
      \<or> endswith filename ''.xlsx'' \<or> endswith filename ''.xls'')"

definition file_outcome :: "regex_engine \<Rightarrow> table \<Rightarrow> input_file \<Rightarrow> logline list \<times> outcome" where
  "file_outcome engine sender_details f =
     (let l0 = [Line (CHR 0x0A # ''Processing file: '' @ fname f)] in
      case read_result f of
        Inl e \<Rightarrow>
          (l0 @ [ErrorLine ((if is_excel (fname f) then ''Error reading Excel file ''
                             else ''Error reading CSV/TXT file '') @ fname f @ '': '') e,
                 Traceback e], Errored)
      | Inr (current_df, first_sheet) \<Rightarrow>
          (let sheet_name = (if is_excel (fname f) then first_sheet else []);
               (l, r) = try_file engine sender_details (fname f) sheet_name current_df
           in case r of
                Inl e \<Rightarrow>
                  (l0 @ l @ [ErrorLine (''Error processing '' @ fname f @ '': '') e, Traceback e],
                   Errored)
              | Inr None \<Rightarrow> (l0 @ l, NoSender)
              | Inr (Some df) \<Rightarrow>
                  (l0 @ l @ [Line (''Successfully processed: '' @ fname f)], Appended df)))"

record state =
  loglines :: "logline list"
  merged_dataframes :: "table list"
  processed_count :: nat
  error_count :: nat

definition process_file :: "regex_engine \<Rightarrow> table \<Rightarrow> input_file \<Rightarrow> state \<Rightarrow> state" where
  "process_file engine sender_details f st =
     (let (l, out) = file_outcome engine sender_details f in
      \<lparr>loglines = loglines st @ l,
       merged_dataframes = merged_dataframes st @ (case out of Appended df \<Rightarrow> [df] | _ \<Rightarrow> []),
       processed_count = processed_count st + (case out of Appended df \<Rightarrow> 1 | _ \<Rightarrow> 0),
       error_count = error_count st + (case out of Errored \<Rightarrow> 1 | _ \<Rightarrow> 0)\<rparr>)"

text \<open>
  What a run is given: the base directory, the outcomes of reading the two sheets of
  the reference workbook and the sender workbook, the entries of the input directory
  in the order \<open>os.listdir\<close> gives them (\<open>None\<close> when the directory does not exist),
  the regular expression engine, the date as \<open>DDMMYYYY\<close>, and the exception
  \<open>to_excel\<close> raises, if it does. Paths are joined as on POSIX.
\<close>

record env =
  base_directory :: string
  pin_sheet :: "exc + table"
  pin_first_sheet :: "exc + (string \<times> table)"
  sender_workbook :: "exc + table"
  input_listing :: "input_file list option"
  engine :: regex_engine
  today :: string
  to_excel_failure :: "exc option"

definition path_join :: "string \<Rightarrow> string \<Rightarrow> string" where
  "path_join a b = (if a = [] \<or> last a = CHR ''/'' then a @ b else a @ ''/'' @ b)"

definition unexpected :: "exc \<Rightarrow> logline list" where
  "unexpected e = [ErrorLine ''Unexpected error: '' e, Traceback e]"

text \<open>The part after the loop over the files: the log, and the artifact written (its
  path and its table) if one is.\<close>

definition finish ::
  "env \<Rightarrow> (string \<times> string) list \<Rightarrow> state \<Rightarrow> logline list \<times> (string \<times> table) option" where
  "finish e pin_df st =
     (if merged_dataframes st \<noteq> [] then
        (case py_concat (merged_dataframes st) of
           Inl x \<Rightarrow> (loglines st @ unexpected x, None)
         | Inr final_df \<Rightarrow>
             (let (l, df) = process_pincodes_and_cities final_df pin_df;
                  output_file = path_join (path_join (base_directory e) ''Output'')
                                  (''Output-Post_File_'' @ today e @ ''.xlsx'');
                  l1 = loglines st @ l
                       @ [Line (CHR 0x0A # ''Saving output file with '' @ show_nat (length (rows df))
                                @ '' total records...'')]
              in case to_excel_failure e of
                   Some x \<Rightarrow> (l1 @ unexpected x, None)
                 | None \<Rightarrow>
                     (l1 @ [Line (''Output saved to: '' @ output_file),
                            Line (CHR 0x0A # ''Processing summary:''),
                            Line (''Total files processed successfully: ''
                                  @ show_nat (processed_count st)),
                            Line (''Total files with errors: '' @ show_nat (error_count st))],
                      Some (output_file, df))))
      else (loglines st @ [Line (CHR 0x0A # ''No files were successfully processed.'')], None))"

definition header_lines :: "env \<Rightarrow> logline list" where
  "header_lines e =
     [Line (''Base directory: '' @ base_directory e),
      Line (''Looking for PIN file at: '' @ path_join (base_directory e) ''PIN.xlsx''),
      Line (''Looking for sender details at: '' @ path_join (base_directory e) ''Sender Address.xlsx''),
      Line (''Reading input files from: '' @ path_join (base_directory e) ''Input''),
      Line (''Output will be saved to: '' @ path_join (base_directory e) ''Output''),
      Line ''Loading PIN database...'']"

definition load_sender_details :: "env \<Rightarrow> logline list \<times> table" where
  "load_sender_details e =
     (case sender_workbook e of
        Inr sender_details \<Rightarrow>
          ([Line (''Successfully loaded sender details with ''
                  @ show_nat (length (rows sender_details)) @ '' records'')], sender_details)
      | Inl x \<Rightarrow>
          ([ErrorLine ''Error loading sender details: '' x, Traceback x],
           \<lparr>labels = ''File Name Contain'' # sender_fields, rows = []\<rparr>))"

definition run :: "env \<Rightarrow> logline list \<times> (string \<times> table) option" where
  "run e =
     (let (lp, pin_df) = load_pin_database (path_join (base_directory e) ''PIN.xlsx'')
                           (pin_sheet e) (pin_first_sheet e);
          l1 = header_lines e @ lp
      in if pin_df = [] then
           (l1 @ [Line ''Error: PIN database not loaded.  Processing stopped.''], None)
         else
           (let (ls, sender_details) = load_sender_details e in
            case input_listing e of
              None \<Rightarrow>
                (l1 @ ls @ [Line (''Input directory not found: ''
                                  @ path_join (base_directory e) ''Input'')], None)
            | Some entries \<Rightarrow>
                (let input_files = filter (\<lambda>f. is_input (fname f)) entries;
                     st0 = \<lparr>loglines = l1 @ ls @ [Line (''Found '' @ show_nat (length input_files)
                                                        @ '' input files to process'')],
                            merged_dataframes = [], processed_count = 0, error_count = 0\<rparr>
                 in finish e pin_df (fold (process_file (engine e) sender_details) input_files st0))))"


section \<open>Facts about the text operations\<close>

lemma space_not_digit: "is_space c \<Longrightarrow> \<not> is_digit c"
  by (auto simp: is_space_def is_digit_def)

lemma filter_dropWhile_disjoint:
  "(\<And>x. Q x \<Longrightarrow> \<not> P x) \<Longrightarrow> filter P (dropWhile Q xs) = filter P xs"
  by (induction xs) auto

lemma digits_only_strip: "digits_only (strip s) = digits_only s"
  by (simp add: digits_only_def strip_def rev_filter [symmetric]
      filter_dropWhile_disjoint space_not_digit)


section \<open>Facts about tables\<close>

lemma set_set_label: "set (set_label cols c) = insert c (set cols)"
  by (auto simp: set_label_def)

lemma distinct_set_label: "distinct cols \<Longrightarrow> distinct (set_label cols c)"
  by (simp add: set_label_def)

lemma set_fold_set_label: "set (fold (\<lambda>c l. set_label l c) cs cols) = set cols \<union> set cs"
  by (induction cs arbitrary: cols) (auto simp: set_set_label)

lemma distinct_fold_set_label:
  "distinct cols \<Longrightarrow> distinct (fold (\<lambda>c l. set_label l c) cs cols)"
  by (induction cs arbitrary: cols) (auto simp: distinct_set_label)

lemma labels_assign_const: "labels (assign_const df c v) = set_label (labels df) c"
  by (simp add: assign_const_def)

lemma rows_assign_const: "rows (assign_const df c v) = map (\<lambda>r. r(c := v)) (rows df)"
  by (simp add: assign_const_def)

lemma labels_assign_column: "labels (assign_column df c vs) = set_label (labels df) c"
  by (simp add: assign_column_def)


lemma length_rows_assign_column:
  "length vs = length (rows df) \<Longrightarrow> length (rows (assign_column df c vs)) = length (rows df)"
  by (simp add: assign_column_def)

lemma labels_fold_assign:
  "labels (fold (\<lambda>f d. assign_const d f (g f)) fs df) = fold (\<lambda>f l. set_label l f) fs (labels df)"
  by (induction fs arbitrary: df) (simp_all add: labels_assign_const)

lemma fold_update_apply:
  "fold (\<lambda>f r. r(f := g f)) fs r c = (if c \<in> set fs then g c else r c)"
  by (induction fs arbitrary: r) auto

lemma rows_fold_assign:
  "rows (fold (\<lambda>f d. assign_const d f (g f)) fs df)
   = map (\<lambda>r c. if c \<in> set fs then g c else r c) (rows df)"
proof -
  have "rows (fold (\<lambda>f d. assign_const d f (g f)) fs df)
        = map (\<lambda>r. fold (\<lambda>f r. r(f := g f)) fs r) (rows df)"
    by (induction fs arbitrary: df) (simp_all add: rows_assign_const comp_def)
  then show ?thesis
    by (simp add: fold_update_apply [abs_def])
qed

lemma labels_ensure:
  "labels (fold (\<lambda>col d. if col \<notin> set (labels d) then assign_const d col v else d) cs df)
   = fold (\<lambda>c l. set_label l c) cs (labels df)"
proof (induction cs arbitrary: df)
  case Nil
  then show ?case by simp
next
  case (Cons a cs)
  then show ?case by (simp add: labels_assign_const) (simp add: set_label_def)
qed

lemma rows_ensure:
  "rows (fold (\<lambda>col d. if col \<notin> set (labels d) then assign_const d col v else d) cs df)
   = map (\<lambda>r c. if c \<in> set cs \<and> c \<notin> set (labels df) then v else r c) (rows df)"
proof (induction cs arbitrary: df)
  case Nil
  then show ?case by simp
next
  case (Cons a cs)
  show ?case
  proof (cases "a \<in> set (labels df)")
    case True
    then show ?thesis using Cons [of df] by auto
  next
    case False
    then show ?thesis
      using Cons [of "assign_const df a v"]
      by (auto simp: labels_assign_const rows_assign_const set_set_label fun_eq_iff)
  qed
qed

lemma select_columns_Inr:
  "select_columns df cols = Inr out \<Longrightarrow>
   rows out = rows df \<and> labels out = concat (map (\<lambda>c. filter (\<lambda>l. l = c) (labels df)) cols)"
  by (auto simp: select_columns_def split: option.splits)

lemma filter_eq_singleton:
  "distinct ls \<Longrightarrow> c \<in> set ls \<Longrightarrow> filter (\<lambda>l. l = c) ls = [c]"
  by (induction ls) (auto simp: filter_empty_conv)

lemma concat_filter_distinct:
  "distinct ls \<Longrightarrow> set cols \<subseteq> set ls \<Longrightarrow>
   concat (map (\<lambda>c. filter (\<lambda>l. l = c) ls) cols) = cols"
  by (induction cols) (simp_all add: filter_eq_singleton)


section \<open>Facts about the per-file block\<close>

lemma complete_frame_Inr:
  assumes "complete_frame fn sh sd srow df = (l, Inr out)"
  shows "rows out =
           map (\<lambda>r c. if c = ''Sheet Name'' then Str sh
                       else if c = ''Input File Name'' then Str fn
                       else if c \<in> set output_columns
                               \<and> c \<notin> set (labels df) \<union> set sender_fields \<union> {''SL''} then Str []
                       else r c)
               (rows (assign_column (snd (add_sender_information fn sd srow df)) ''SL''
                        (map (\<lambda>i. Num (int i)) [1..<Suc (length (rows df))])))"
    and "labels out = concat (map (\<lambda>c. filter (\<lambda>l. l = c)
           (set_label (set_label (fold (\<lambda>c l. set_label l c) output_columns
              (set_label (fold (\<lambda>c l. set_label l c) sender_fields (labels df)) ''SL''))
              ''Input File Name'') ''Sheet Name'')) output_columns)"
proof -
  obtain l3 df3 where s: "add_sender_information fn sd srow df = (l3, df3)"
    by (cases "add_sender_information fn sd srow df")
  have l3: "labels df3 = fold (\<lambda>c l. set_label l c) sender_fields (labels df)"
    using s by (auto simp: add_sender_information_def labels_fold_assign split: list.splits)
  have n3: "length (rows df3) = length (rows df)"
    using s by (auto simp: add_sender_information_def rows_fold_assign split: list.splits)
  let ?df4 = "assign_column df3 ''SL'' (map (\<lambda>i. Num (int i)) [1..<Suc (length (rows df3))])"
  let ?df7 = "assign_const (assign_const (ensure_output_columns ?df4)
                ''Input File Name'' (Str fn)) ''Sheet Name'' (Str sh)"
  have sel: "select_columns ?df7 output_columns = Inr out"
    using assms s by (simp add: complete_frame_def Let_def)
  have l4: "set (labels ?df4) = set (labels df) \<union> set sender_fields \<union> {''SL''}"
    by (simp add: labels_assign_column set_set_label l3 set_fold_set_label)
  show "rows out =
           map (\<lambda>r c. if c = ''Sheet Name'' then Str sh
                       else if c = ''Input File Name'' then Str fn
                       else if c \<in> set output_columns
                               \<and> c \<notin> set (labels df) \<union> set sender_fields \<union> {''SL''} then Str []
                       else r c)
               (rows (assign_column (snd (add_sender_information fn sd srow df)) ''SL''
                        (map (\<lambda>i. Num (int i)) [1..<Suc (length (rows df))])))"
    using select_columns_Inr [OF sel] s n3 l4
    by (simp add: rows_assign_const ensure_output_columns_def rows_ensure comp_def fun_eq_iff)
  show "labels out = concat (map (\<lambda>c. filter (\<lambda>l. l = c)
           (set_label (set_label (fold (\<lambda>c l. set_label l c) output_columns
              (set_label (fold (\<lambda>c l. set_label l c) sender_fields (labels df)) ''SL''))
              ''Input File Name'') ''Sheet Name'')) output_columns)"
    using select_columns_Inr [OF sel] l3
    by (simp add: labels_assign_const ensure_output_columns_def labels_ensure labels_assign_column)
qed

lemma complete_frame_labels:
  assumes "complete_frame fn sh sd srow df = (l, Inr out)" and "distinct (labels df)"
  shows "labels out = output_columns"
proof -
  let ?ls = "set_label (set_label (fold (\<lambda>c l. set_label l c) output_columns
              (set_label (fold (\<lambda>c l. set_label l c) sender_fields (labels df)) ''SL''))
              ''Input File Name'') ''Sheet Name''"
  have d: "distinct ?ls"
    using assms(2) by (intro distinct_set_label distinct_fold_set_label)
  have s: "set output_columns \<subseteq> set ?ls"
    by (auto simp: set_set_label set_fold_set_label)
  show ?thesis
    using complete_frame_Inr(2) [OF assms(1)] concat_filter_distinct [OF d s] by simp
qed

lemma in_rows_assign_column:
  assumes "r \<in> set (rows (assign_column df c vs))" and "c' \<noteq> c"
  shows "\<exists>r0 \<in> set (rows df). r c' = r0 c'"
  using assms by (auto simp: assign_column_def dest!: set_zip_leftD)

lemma complete_frame_sender:
  assumes "complete_frame fn sh sd (info # rest) df = (l, Inr out)"
    and "field \<in> set sender_fields" and "r \<in> set (rows out)"
  shows "r field = sender_get sd info field"
proof -
  have ne: "field \<noteq> ''Sheet Name''" "field \<noteq> ''Input File Name''" "field \<noteq> ''SL''"
    using assms(2) by (auto simp: sender_fields_def)
  let ?df3 = "snd (add_sender_information fn sd (info # rest) df)"
  have r3: "\<And>r0. r0 \<in> set (rows ?df3) \<Longrightarrow> r0 field = sender_get sd info field"
    using assms(2) by (auto simp: add_sender_information_def rows_fold_assign)
  obtain r1 where r1: "r1 \<in> set (rows (assign_column ?df3 ''SL''
                        (map (\<lambda>i. Num (int i)) [1..<Suc (length (rows df))])))"
      and rr: "r field = r1 field"
    using assms(3) ne assms(2) complete_frame_Inr(1) [OF assms(1)] by auto
  obtain r0 where "r0 \<in> set (rows ?df3)" "r1 field = r0 field"
    using in_rows_assign_column [OF r1 ne(3)] by blast
  then show ?thesis using rr r3 by simp
qed

lemma complete_frame_default:
  assumes "complete_frame fn sh sd srow df = (l, Inr out)"
    and "c \<in> set output_columns" and "c \<notin> set (labels df)" and "c \<notin> set sender_fields"
    and "c \<noteq> ''SL''" and "c \<noteq> ''Input File Name''" and "c \<noteq> ''Sheet Name''"
    and "r \<in> set (rows out)"
  shows "r c = Str []"
  using assms(2-) complete_frame_Inr(1) [OF assms(1)] by auto


lemma collect_Inr: "collect xs = Inr vs \<Longrightarrow> xs = map Inr vs"
proof (induction xs arbitrary: vs)
  case Nil
  then show ?case by simp
next
  case (Cons x xs)
  then show ?case by (cases x) (auto split: sum.splits)
qed

lemma add_address_Inr:
  assumes "add_address df = (l, Inr df2)"
  shows "(get_matching_columns df address_columns = [] \<and> df2 = df)
       \<or> (get_matching_columns df address_columns \<noteq> []
          \<and> (\<exists>vs. map (address_text (get_matching_columns df address_columns)) (rows df) = map Inr vs
                 \<and> df2 = assign_column df ''AddreADD1'' vs))"
  using assms by (auto simp: add_address_def Let_def split: if_splits sum.splits dest: collect_Inr)

lemma add_address_labels:
  assumes "add_address df = (l, Inr df2)"
  shows "labels df2 = labels df \<or> labels df2 = set_label (labels df) ''AddreADD1''"
  using add_address_Inr [OF assms] by (auto simp: labels_assign_column)

lemma enrich_Inr:
  assumes "enrich fn sh sd srow df = (l, Inr out)"
  shows "\<exists>l2 df2 l3. add_address (snd (apply_mapping df)) = (l2, Inr df2)
           \<and> complete_frame fn sh sd srow df2 = (l3, Inr out)"
  using assms by (auto simp: enrich_def Let_def split: prod.splits sum.splits)

lemma file_outcome_Appended:
  assumes "file_outcome eng sd f = (l, Appended out)"
  shows "\<exists>df sh info rest l'.
           read_result f = Inr (df, sh)
         \<and> find_sender eng sd (base_filename (fname f)) = Inr (info # rest)
         \<and> enrich (fname f) (if is_excel (fname f) then sh else []) sd (info # rest) df = (l', Inr out)"
proof -
  obtain df sh where rd: "read_result f = Inr (df, sh)"
    using assms by (auto simp: file_outcome_def Let_def split: sum.splits prod.splits)
  let ?sheet = "if is_excel (fname f) then sh else []"
  obtain l1 r where t: "try_file eng sd (fname f) ?sheet df = (l1, r)"
    by (cases "try_file eng sd (fname f) ?sheet df")
  have r: "r = Inr (Some out)"
    using assms rd t by (auto simp: file_outcome_def Let_def split: sum.splits option.splits)
  obtain srow where fs: "find_sender eng sd (base_filename (fname f)) = Inr srow" and ne: "srow \<noteq> []"
    using t r by (auto simp: try_file_def Let_def split: sum.splits if_splits prod.splits)
  obtain l' where "enrich (fname f) ?sheet sd srow df = (l', Inr out)"
    using t r fs ne
    by (cases "enrich (fname f) ?sheet sd srow df"; cases "snd (enrich (fname f) ?sheet sd srow df)")
       (auto simp: try_file_def Let_def)
  then show ?thesis
    using rd fs ne by (cases srow) auto
qed

lemma enrich_sender:
  assumes "enrich fn sh sd (info # rest) df = (l, Inr out)"
    and "field \<in> set sender_fields" and "r \<in> set (rows out)"
  shows "r field = sender_get sd info field"
  using enrich_Inr [OF assms(1)] complete_frame_sender assms(2,3) by blast

lemma build_mapping_labels:
  "build_mapping df = build_mapping \<lparr>labels = labels df, rows = []\<rparr>"
  by (simp add: build_mapping_def get_single_matching_column_def)

lemma get_matching_columns_labels:
  "get_matching_columns df names = get_matching_columns \<lparr>labels = labels df, rows = []\<rparr> names"
  by (simp add: get_matching_columns_def)

lemma select_columns_total:
  "set cols \<subseteq> set (labels df) \<Longrightarrow> \<exists>out. select_columns df cols = Inr out"
proof -
  assume "set cols \<subseteq> set (labels df)"
  then have "find (\<lambda>c. c \<notin> set (labels df)) cols = None"
    by (auto simp: find_None_iff)
  then show ?thesis by (simp add: select_columns_def)
qed

lemma complete_frame_total:
  "\<exists>out. snd (complete_frame fn sh sd srow df) = Inr out"
proof -
  obtain l3 df3 where s: "add_sender_information fn sd srow df = (l3, df3)"
    by (cases "add_sender_information fn sd srow df")
  let ?df4 = "assign_column df3 ''SL'' (map (\<lambda>i. Num (int i)) [1..<Suc (length (rows df3))])"
  let ?df7 = "assign_const (assign_const (ensure_output_columns ?df4)
                ''Input File Name'' (Str fn)) ''Sheet Name'' (Str sh)"
  have "set output_columns \<subseteq> set (labels ?df7)"
    by (auto simp: labels_assign_const set_set_label ensure_output_columns_def labels_ensure
        set_fold_set_label)
  from select_columns_total [OF this] obtain out where "select_columns ?df7 output_columns = Inr out"
    by blast
  then show ?thesis using s by (simp add: complete_frame_def Let_def)
qed

lemma add_address_none:
  "get_matching_columns df address_columns = [] \<Longrightarrow> add_address df = ([], Inr df)"
  by (simp add: add_address_def Let_def)

lemma enrich_no_address:
  assumes "get_matching_columns (snd (apply_mapping df)) address_columns = []"
  shows "\<exists>l out. enrich fn sh sd srow df = (l, Inr out)"
proof -
  obtain out where "snd (complete_frame fn sh sd srow (snd (apply_mapping df))) = Inr out"
    using complete_frame_total by blast
  then show ?thesis
    using add_address_none [OF assms]
    by (simp add: enrich_def Let_def case_prod_beta)
qed

lemma file_outcome_Appended_intro:
  assumes "read_result f = Inr (df, sh)"
    and "find_sender eng sd (base_filename (fname f)) = Inr srow" and "srow \<noteq> []"
    and "enrich (fname f) (if is_excel (fname f) then sh else []) sd srow df = (l', Inr out)"
  shows "\<exists>l. file_outcome eng sd f = (l, Appended out)"
  using assms by (simp add: file_outcome_def try_file_def Let_def)

lemma apply_mapping_length: "length (rows (snd (apply_mapping df))) = length (rows df)"
  by (simp add: apply_mapping_def Let_def case_prod_beta rename_columns_def)

lemma add_address_length:
  assumes "add_address df = (l, Inr df2)"
  shows "length (rows df2) = length (rows df)"
proof -
  from add_address_Inr [OF assms] show ?thesis
  proof
    assume "get_matching_columns df address_columns = [] \<and> df2 = df"
    then show ?thesis by simp
  next
    assume "get_matching_columns df address_columns \<noteq> []
          \<and> (\<exists>vs. map (address_text (get_matching_columns df address_columns)) (rows df) = map Inr vs
                 \<and> df2 = assign_column df ''AddreADD1'' vs)"
    then obtain vs where
      m: "map (address_text (get_matching_columns df address_columns)) (rows df) = map Inr vs"
      and d: "df2 = assign_column df ''AddreADD1'' vs"
      by blast
    have "length vs = length (rows df)"
      using arg_cong [OF m, of length] by simp
    then show ?thesis
      unfolding d by (rule length_rows_assign_column)
  qed
qed

lemma complete_frame_length:
  assumes "complete_frame fn sh sd srow df = (l, Inr out)"
  shows "length (rows out) = length (rows df)"
proof -
  let ?df3 = "snd (add_sender_information fn sd srow df)"
  have n3: "length (rows ?df3) = length (rows df)"
    by (auto simp: add_sender_information_def rows_fold_assign split: list.splits)
  have len: "length (map (\<lambda>i. Num (int i)) [1..<Suc (length (rows df))]) = length (rows ?df3)"
    using n3 by (simp del: upt_Suc)
  show ?thesis
    using complete_frame_Inr(1) [OF assms] length_rows_assign_column [OF len, of "''SL''"] n3
    by simp
qed

lemma enrich_length:
  assumes "enrich fn sh sd srow df = (l, Inr out)"
  shows "length (rows out) = length (rows df)"
proof -
  from enrich_Inr [OF assms] obtain l2 df2 l3 where
    a: "add_address (snd (apply_mapping df)) = (l2, Inr df2)" and
    c: "complete_frame fn sh sd srow df2 = (l3, Inr out)"
    by blast
  show ?thesis
    using complete_frame_length [OF c] add_address_length [OF a] apply_mapping_length [of df]
    by simp
qed







lemma find_sender_first:
  assumes "find_sender eng sd key = Inr (info # rest)"
  shows "\<exists>m before after. compile_ignorecase eng key = Some m
           \<and> rows sd = before @ info # after
           \<and> contains_cell m (info ''File Name Contain'')
           \<and> list_all (\<lambda>r. \<not> contains_cell m (r ''File Name Contain'')) before"
proof -
  from assms obtain m where
    c: "compile_ignorecase eng key = Some m" and
    fl: "filter (\<lambda>r. contains_cell m (r ''File Name Contain'')) (rows sd) = info # rest"
    by (auto simp: find_sender_def split: if_splits option.splits)
  from fl obtain before after where
    "rows sd = before @ info # after"
    "\<forall>u \<in> set before. \<not> contains_cell m (u ''File Name Contain'')"
    "contains_cell m (info ''File Name Contain'')"
    by (auto simp: filter_eq_Cons_iff)
  with c show ?thesis
    by (auto simp: list_all_iff)
qed


section \<open>Facts about the lines a file logs\<close>

lemma build_mapping_fold_lines:
  assumes "n \<notin> set l0" and "\<And>s t. n \<noteq> Line (''Mapped '' @ s)"
  shows "n \<notin> set (fst (fold (\<lambda>(target_col, possible_names) (l, m).
             (case get_single_matching_column df possible_names of
                Some source_col \<Rightarrow>
                  if source_col \<noteq> []
                  then (l @ [Line (''Mapped '' @ quoted source_col @ '' to '' @ quoted target_col)],
                        AList.update source_col target_col m)
                  else (l, m)
              | None \<Rightarrow> (l, m))) cms (l0, m0)))"
  using assms(1)
proof (induction cms arbitrary: l0 m0)
  case Nil
  then show ?case by simp
next
  case (Cons a cms)
  obtain t p where a: "a = (t, p)" by (cases a)
  show ?case
  proof (cases "get_single_matching_column df p")
    case None
    then show ?thesis using Cons.IH [OF Cons.prems] by (simp add: a)
  next
    case (Some c)
    show ?thesis
    proof (cases "c = []")
      case True
      then show ?thesis using Some Cons.IH [OF Cons.prems] by (simp add: a)
    next
      case False
      have "n \<notin> set (l0 @ [Line (''Mapped '' @ quoted c @ '' to '' @ quoted t)])"
        using Cons.prems assms(2) by simp
      from Cons.IH [OF this] show ?thesis using Some False by (simp add: a)
    qed
  qed
qed

lemma apply_mapping_fst: "fst (apply_mapping df) = fst (build_mapping df)"
  by (simp add: apply_mapping_def Let_def case_prod_beta)

lemma apply_mapping_lines:
  "Line (''No sender details found for '' @ x) \<notin> set (fst (apply_mapping df))"
  unfolding apply_mapping_fst build_mapping_def
  by (rule build_mapping_fold_lines) simp_all

lemma add_address_lines:
  "Line (''No sender details found for '' @ x) \<notin> set (fst (add_address df))"
  by (simp add: add_address_def Let_def)

lemma complete_frame_lines:
  "srow \<noteq> [] \<Longrightarrow> fst (complete_frame fn sh sd srow df) = []"
  by (cases srow) (simp_all add: complete_frame_def add_sender_information_def Let_def)

lemma enrich_fst:
  "fst (enrich fn sh sd srow df)
   = fst (apply_mapping df) @ fst (add_address (snd (apply_mapping df)))
     @ (case snd (add_address (snd (apply_mapping df))) of
          Inl e \<Rightarrow> [] | Inr df2 \<Rightarrow> fst (complete_frame fn sh sd srow df2))"
  by (simp add: enrich_def Let_def case_prod_beta split: sum.splits)

lemma enrich_lines:
  assumes "srow \<noteq> []"
  shows "Line (''No sender details found for '' @ x) \<notin> set (fst (enrich fn sh sd srow df))"
  unfolding enrich_fst
  using apply_mapping_lines [of x df] add_address_lines [of x "snd (apply_mapping df)"]
    complete_frame_lines [OF assms]
  by (simp split: sum.splits)

lemma try_file_lines:
  "Line (''No sender details found for '' @ x) \<notin> set (fst (try_file eng sd fn sh df))"
proof (cases "find_sender eng sd (base_filename fn)")
  case (Inl e)
  then show ?thesis by (simp add: try_file_def Let_def)
next
  case (Inr srow)
  show ?thesis
  proof (cases "srow = []")
    case True
    with Inr show ?thesis by (simp add: try_file_def Let_def)
  next
    case False
    with Inr enrich_lines [OF False, of x fn sh sd df] show ?thesis
      by (simp add: try_file_def Let_def case_prod_beta)
  qed
qed

lemma file_outcome_lines:
  "Line (''No sender details found for '' @ x) \<notin> set (fst (file_outcome eng sd f))"
proof (cases "read_result f")
  case (Inl e)
  then show ?thesis by (simp add: file_outcome_def Let_def)
next
  case (Inr p)
  obtain df sh where p: "p = (df, sh)" by (cases p)
  let ?t = "try_file eng sd (fname f) (if is_excel (fname f) then sh else []) df"
  have t: "Line (''No sender details found for '' @ x) \<notin> set (fst ?t)"
    by (rule try_file_lines)
  show ?thesis
  proof (cases "snd ?t")
    case (Inl e)
    with Inr p t show ?thesis
      by (simp add: file_outcome_def Let_def case_prod_beta)
  next
    case (Inr res)
    with \<open>read_result f = Inr p\<close> p t show ?thesis
      by (cases res) (simp_all add: file_outcome_def Let_def case_prod_beta)
  qed
qed


section \<open>Facts about the loop over the files\<close>

lemma process_file_merged:
  "merged_dataframes (process_file eng sd f st)
   = merged_dataframes st @ (case snd (file_outcome eng sd f) of Appended df \<Rightarrow> [df] | _ \<Rightarrow> [])"
  by (simp add: process_file_def case_prod_beta)

lemma process_file_loglines:
  "loglines (process_file eng sd f st) = loglines st @ fst (file_outcome eng sd f)"
  by (simp add: process_file_def case_prod_beta)

lemma fold_process_file_merged:
  "merged_dataframes (fold (process_file eng sd) fs st)
   = merged_dataframes st
     @ concat (map (\<lambda>f. case snd (file_outcome eng sd f) of Appended df \<Rightarrow> [df] | _ \<Rightarrow> []) fs)"
  by (induction fs arbitrary: st) (simp_all add: process_file_merged)

lemma file_outcome_first_line:
  "Line (CHR 0x0A # ''Processing file: '' @ fname f) \<in> set (fst (file_outcome eng sd f))"
  by (simp add: file_outcome_def Let_def case_prod_beta split: sum.splits option.splits)

lemma find_sender_no_match:
  assumes "\<And>m r s. compile_ignorecase eng key = Some m \<Longrightarrow> r \<in> set (rows sd)
             \<Longrightarrow> r ''File Name Contain'' = Str s \<Longrightarrow> \<not> m s"
  shows "find_sender eng sd key = Inr [] \<or> (\<exists>e. find_sender eng sd key = Inl e)"
proof (cases "compile_ignorecase eng key")
  case None
  then show ?thesis by (simp add: find_sender_def)
next
  case (Some m)
  have "\<And>r. r \<in> set (rows sd) \<Longrightarrow> \<not> contains_cell m (r ''File Name Contain'')"
  proof -
    fix r assume r: "r \<in> set (rows sd)"
    show "\<not> contains_cell m (r ''File Name Contain'')"
      using assms [OF Some r] by (cases "r ''File Name Contain''") auto
  qed
  then have "filter (\<lambda>r. contains_cell m (r ''File Name Contain'')) (rows sd) = []"
    by (simp add: filter_empty_conv)
  then show ?thesis using Some by (simp add: find_sender_def)
qed

lemma file_outcome_no_sender:
  assumes "find_sender eng sd (base_filename (fname f)) = Inr []
           \<or> (\<exists>e. find_sender eng sd (base_filename (fname f)) = Inl e)"
  shows "snd (file_outcome eng sd f) \<noteq> Appended out"
proof
  assume a: "snd (file_outcome eng sd f) = Appended out"
  then obtain l where "file_outcome eng sd f = (l, Appended out)"
    by (cases "file_outcome eng sd f") simp
  from file_outcome_Appended [OF this] assms show False by auto
qed

lemma finish_snd_cong:
  assumes "merged_dataframes st = merged_dataframes st'"
  shows "snd (finish e pin_df st) = snd (finish e pin_df st')"
  using assms
  by (simp add: finish_def Let_def case_prod_beta split: sum.splits option.splits)

lemma finish_snd:
  "snd (finish e pin_df st)
   = (if merged_dataframes st = [] then None
      else case py_concat (merged_dataframes st) of
             Inl x \<Rightarrow> None
           | Inr final_df \<Rightarrow>
               (case to_excel_failure e of
                  Some x \<Rightarrow> None
                | None \<Rightarrow>
                    Some (path_join (path_join (base_directory e) ''Output'')
                            (''Output-Post_File_'' @ today e @ ''.xlsx''),
                          snd (process_pincodes_and_cities final_df pin_df))))"
  by (simp add: finish_def Let_def case_prod_beta split: sum.splits option.splits)

lemma finish_snd_input_listing:
  "snd (finish (e\<lparr>input_listing := x\<rparr>) pin_df st) = snd (finish e pin_df st)"
  by (simp add: finish_snd split: sum.splits option.splits)

lemma run_snd:
  "snd (run e)
   = (if snd (load_pin_database (path_join (base_directory e) ''PIN.xlsx'')
                (pin_sheet e) (pin_first_sheet e)) = [] then None
      else case input_listing e of
             None \<Rightarrow> None
           | Some entries \<Rightarrow>
               snd (finish e (snd (load_pin_database (path_join (base_directory e) ''PIN.xlsx'')
                                     (pin_sheet e) (pin_first_sheet e)))
                 (fold (process_file (engine e) (snd (load_sender_details e)))
                    (filter (\<lambda>f. is_input (fname f)) entries)
                    \<lparr>loglines = header_lines e
                        @ fst (load_pin_database (path_join (base_directory e) ''PIN.xlsx'')
                                 (pin_sheet e) (pin_first_sheet e))
                        @ fst (load_sender_details e)
                        @ [Line (''Found '' @ show_nat (length (filter (\<lambda>f. is_input (fname f)) entries))
                                 @ '' input files to process'')],
                     merged_dataframes = [], processed_count = 0, error_count = 0\<rparr>)))"
  by (simp add: run_def Let_def case_prod_beta split: option.splits)


lemma run_snd_listing:
  "\<exists>st0. merged_dataframes st0 = []
            \<and> snd (run (e\<lparr>input_listing := Some xs\<rparr>))
              = (if snd (load_pin_database (path_join (base_directory e) ''PIN.xlsx'')
                (pin_sheet e) (pin_first_sheet e)) = [] then None
                 else snd (finish e (snd (load_pin_database (path_join (base_directory e) ''PIN.xlsx'')
                (pin_sheet e) (pin_first_sheet e))) (fold (process_file (engine e) (snd (load_sender_details e)))
                             (filter (\<lambda>f. is_input (fname f)) xs) st0)))"
proof -
  have ld: "load_sender_details (e\<lparr>input_listing := Some xs\<rparr>) = load_sender_details e"
    by (simp add: load_sender_details_def)
  show ?thesis
    unfolding run_snd
    apply (rule exI [of _ "\<lparr>loglines = header_lines (e\<lparr>input_listing := Some xs\<rparr>)
                        @ fst (load_pin_database (path_join (base_directory e) ''PIN.xlsx'')
                                 (pin_sheet e) (pin_first_sheet e))
                        @ fst (load_sender_details e)
                        @ [Line (''Found '' @ show_nat (length (filter (\<lambda>f. is_input (fname f)) xs))
                                 @ '' input files to process'')],
                     merged_dataframes = [], processed_count = 0, error_count = 0\<rparr>"])
    apply (simp add: ld finish_snd_input_listing)
    done
qed

lemma distinct_output_columns: "distinct output_columns"
  by (simp add: output_columns_def)

lemma enrich_labels:
  assumes "enrich fn sh sd srow df = (l, Inr out)"
    and "distinct (labels (snd (apply_mapping df)))"
  shows "labels out = output_columns"
proof -
  from enrich_Inr [OF assms(1)] obtain l2 df2 l3 where
    a: "add_address (snd (apply_mapping df)) = (l2, Inr df2)" and
    c: "complete_frame fn sh sd srow df2 = (l3, Inr out)"
    by blast
  have "distinct (labels df2)"
    using add_address_labels [OF a] assms(2) by (auto simp: distinct_set_label)
  then show ?thesis
    by (rule complete_frame_labels [OF c])
qed

lemma enrich_default:
  assumes "enrich fn sh sd srow df = (l, Inr out)"
    and "c \<in> set output_columns" and "c \<notin> set (labels (snd (apply_mapping df)))"
    and "c \<notin> set sender_fields"
    and "c \<noteq> ''SL''" and "c \<noteq> ''Input File Name''" and "c \<noteq> ''Sheet Name''"
    and "c = ''AddreADD1'' \<longrightarrow> get_matching_columns (snd (apply_mapping df)) address_columns = []"
    and "r \<in> set (rows out)"
  shows "r c = Str []"
proof -
  from enrich_Inr [OF assms(1)] obtain l2 df2 l3 where
    a: "add_address (snd (apply_mapping df)) = (l2, Inr df2)" and
    cf: "complete_frame fn sh sd srow df2 = (l3, Inr out)"
    by blast
  have "c \<notin> set (labels df2)"
    using add_address_Inr [OF a] assms(3,8) by (auto simp: labels_assign_column set_set_label)
  then show ?thesis
    using complete_frame_default [OF cf assms(2) _ assms(4,5,6,7,9)] by simp
qed

lemma file_outcome_labels:
  assumes "file_outcome eng sd f = (l, Appended out)"
    and "\<And>df sh. read_result f = Inr (df, sh) \<Longrightarrow> distinct (labels (snd (apply_mapping df)))"
  shows "labels out = output_columns"
proof -
  from file_outcome_Appended [OF assms(1)] obtain df sh info rest l' where
    rd: "read_result f = Inr (df, sh)" and
    en: "enrich (fname f) (if is_excel (fname f) then sh else []) sd (info # rest) df = (l', Inr out)"
    by blast
  show ?thesis
    by (rule enrich_labels [OF en assms(2) [OF rd]])
qed

lemma fold_merged_labels:
  assumes "\<And>f df sh. f \<in> set fs \<Longrightarrow> read_result f = Inr (df, sh)
             \<Longrightarrow> distinct (labels (snd (apply_mapping df)))"
    and "t \<in> set (merged_dataframes (fold (process_file eng sd) fs st))"
    and "merged_dataframes st = []"
  shows "labels t = output_columns"
proof -
  from assms(2,3) obtain f where f: "f \<in> set fs" and
    t: "t \<in> set (case snd (file_outcome eng sd f) of Appended df \<Rightarrow> [df] | _ \<Rightarrow> [])"
    by (auto simp: fold_process_file_merged)
  then have "snd (file_outcome eng sd f) = Appended t"
    by (cases "snd (file_outcome eng sd f)") auto
  then obtain l where "file_outcome eng sd f = (l, Appended t)"
    by (cases "file_outcome eng sd f") simp
  then show ?thesis
    using assms(1) [OF f] by (rule file_outcome_labels)
qed

lemma py_concat_labels:
  assumes "py_concat dfs = Inr final" and "\<And>t. t \<in> set dfs \<Longrightarrow> labels t = cols"
  shows "labels final = cols"
  using assms by (cases dfs) (auto simp: py_concat_def split: if_splits)

lemma process_pincodes_and_cities_labels:
  assumes "''AddrePincode'' \<in> set (labels df)" and "''AddreCity'' \<in> set (labels df)"
  shows "labels (snd (process_pincodes_and_cities df pin_df)) = labels df"
  using assms
  by (simp add: process_pincodes_and_cities_def process_pincodes_def process_cities_def
      Let_def case_prod_beta)

lemma finish_Some:
  assumes "snd (finish e pin_df st) = Some (path, out)"
  shows "\<exists>final. py_concat (merged_dataframes st) = Inr final
           \<and> out = snd (process_pincodes_and_cities final pin_df)"
proof (cases "merged_dataframes st = []")
  case True
  with assms show ?thesis by (simp add: finish_snd)
next
  case False
  show ?thesis
  proof (cases "py_concat (merged_dataframes st)")
    case (Inl x)
    with assms False show ?thesis by (simp add: finish_snd)
  next
    case (Inr final)
    show ?thesis
    proof (cases "to_excel_failure e")
      case None
      with assms False Inr show ?thesis by (simp add: finish_snd)
    next
      case (Some x)
      with assms False Inr show ?thesis by (simp add: finish_snd)
    qed
  qed
qed

lemma run_Some:
  assumes "snd (run e) = Some (path, out)"
  shows "\<exists>entries st final.
           input_listing e = Some entries \<and> merged_dataframes st = []
         \<and> py_concat (merged_dataframes
               (fold (process_file (engine e) (snd (load_sender_details e)))
                  (filter (\<lambda>f. is_input (fname f)) entries) st)) = Inr final
         \<and> out = snd (process_pincodes_and_cities final
                   (snd (load_pin_database (path_join (base_directory e) ''PIN.xlsx'')
                          (pin_sheet e) (pin_first_sheet e))))"
proof -
  define pin where "pin = snd (load_pin_database (path_join (base_directory e) ''PIN.xlsx'')
                          (pin_sheet e) (pin_first_sheet e))"
  have a: "snd (run e) = Some (path, out)" by (rule assms)
  show ?thesis
  proof (cases "pin = []")
    case True
    then have "snd (run e) = None"
      unfolding pin_def by (subst run_snd) simp
    with a show ?thesis by simp
  next
    case False
    show ?thesis
    proof (cases "input_listing e")
      case None
      then have "snd (run e) = None"
        by (subst run_snd) simp
      with a show ?thesis by simp
    next
      case (Some entries)
      define st0 where "st0 = \<lparr>loglines = header_lines e
                        @ fst (load_pin_database (path_join (base_directory e) ''PIN.xlsx'')
                                 (pin_sheet e) (pin_first_sheet e))
                        @ fst (load_sender_details e)
                        @ [Line (''Found '' @ show_nat (length (filter (\<lambda>f. is_input (fname f)) entries))
                                 @ '' input files to process'')],
                     merged_dataframes = [], processed_count = 0, error_count = 0\<rparr>"
      have m0: "merged_dataframes st0 = []" by (simp add: st0_def)
      have "snd (run e) = snd (finish e pin
               (fold (process_file (engine e) (snd (load_sender_details e)))
                  (filter (\<lambda>f. is_input (fname f)) entries) st0))"
        using False Some unfolding pin_def st0_def by (subst run_snd) simp
      with a have "snd (finish e pin
               (fold (process_file (engine e) (snd (load_sender_details e)))
                  (filter (\<lambda>f. is_input (fname f)) entries) st0)) = Some (path, out)"
        by simp
      from finish_Some [OF this] Some m0 show ?thesis
        unfolding pin_def by blast
    qed
  qed
qed

lemma run_written_labels:
  assumes "snd (run e) = Some (path, out)"
    and "\<And>entries f df sh. input_listing e = Some entries \<Longrightarrow> f \<in> set entries
            \<Longrightarrow> read_result f = Inr (df, sh) \<Longrightarrow> distinct (labels (snd (apply_mapping df)))"
  shows "labels out = output_columns"
proof -
  from run_Some [OF assms(1)] obtain entries st final where
    en: "input_listing e = Some entries" and st: "merged_dataframes st = []" and
    pc: "py_concat (merged_dataframes
               (fold (process_file (engine e) (snd (load_sender_details e)))
                  (filter (\<lambda>f. is_input (fname f)) entries) st)) = Inr final" and
    o: "out = snd (process_pincodes_and_cities final
                   (snd (load_pin_database (path_join (base_directory e) ''PIN.xlsx'')
                          (pin_sheet e) (pin_first_sheet e))))"
    by blast
  have each: "labels t = output_columns"
    if "t \<in> set (merged_dataframes
               (fold (process_file (engine e) (snd (load_sender_details e)))
                  (filter (\<lambda>f. is_input (fname f)) entries) st))" for t
  proof (rule fold_merged_labels [OF _ that st])
    fix f df sh
    assume "f \<in> set (filter (\<lambda>f. is_input (fname f)) entries)" and rd: "read_result f = Inr (df, sh)"
    then have "f \<in> set entries" by simp
    from assms(2) [OF en this rd] show "distinct (labels (snd (apply_mapping df)))" .
  qed
  have lf: "labels final = output_columns"
    by (rule py_concat_labels [OF pc each])
  have "''AddrePincode'' \<in> set (labels final)" "''AddreCity'' \<in> set (labels final)"
    unfolding lf by (simp_all add: output_columns_def)
  then show ?thesis
    unfolding o using lf by (simp add: process_pincodes_and_cities_labels)
qed

lemma run_writes:
  assumes "snd (load_pin_database (path_join (base_directory e) ''PIN.xlsx'')
                  (pin_sheet e) (pin_first_sheet e)) \<noteq> []"
    and "input_listing e = Some entries" and "to_excel_failure e = None"
    and "concat (map (\<lambda>f. case snd (file_outcome (engine e) (snd (load_sender_details e)) f) of
                            Appended df \<Rightarrow> [df] | _ \<Rightarrow> [])
                  (filter (\<lambda>f. is_input (fname f)) entries)) = ms"
    and "ms \<noteq> []" and "py_concat ms = Inr final"
  shows "\<exists>path. snd (run e) = Some (path, snd (process_pincodes_and_cities final
                   (snd (load_pin_database (path_join (base_directory e) ''PIN.xlsx'')
                          (pin_sheet e) (pin_first_sheet e)))))"
proof -
  define st0 where "st0 = \<lparr>loglines = header_lines e
                        @ fst (load_pin_database (path_join (base_directory e) ''PIN.xlsx'')
                                 (pin_sheet e) (pin_first_sheet e))
                        @ fst (load_sender_details e)
                        @ [Line (''Found '' @ show_nat (length (filter (\<lambda>f. is_input (fname f)) entries))
                                 @ '' input files to process'')],
                     merged_dataframes = [], processed_count = 0, error_count = 0\<rparr>"
  define st where "st = fold (process_file (engine e) (snd (load_sender_details e)))
                  (filter (\<lambda>f. is_input (fname f)) entries) st0"
  have r: "snd (run e) = snd (finish e (snd (load_pin_database (path_join (base_directory e) ''PIN.xlsx'')
                  (pin_sheet e) (pin_first_sheet e))) st)"
    using assms(1,2) unfolding st_def st0_def by (subst run_snd) simp
  have m: "merged_dataframes st = ms"
    unfolding st_def using assms(4) by (simp add: fold_process_file_merged st0_def)
  show ?thesis
    unfolding r finish_snd m using assms(3,5,6) by simp
qed


section \<open>The rows of the written table\<close>

lemma pincode_step_other:
  "c \<noteq> ''AddrePincode'' \<Longrightarrow> fst (pincode_step cols r) c = r c"
  by (simp add: pincode_step_def split: option.splits)

lemma city_step_other:
  "c \<noteq> ''AddreCity'' \<Longrightarrow> fst (city_step pin_df r) c = r c"
  by (simp add: city_step_def split: list.splits prod.splits)

lemma process_pincodes_rows:
  assumes "r \<in> set (rows (snd (process_pincodes df)))"
  shows "\<exists>r' \<in> set (rows df). \<forall>c. c \<noteq> ''AddrePincode'' \<longrightarrow> r c = r' c"
proof (cases "''AddrePincode'' \<in> set (labels df)")
  case True
  with assms obtain r' where "r' \<in> set (rows df)" and
    "r = fst (pincode_step (labels df) (r'(''AddrePincode'' :=
           Str (clean_pincode (Str (py_str (fillna_empty (r' ''AddrePincode''))))))))"
    by (auto simp: process_pincodes_def Let_def)
  then show ?thesis
    by (auto simp: pincode_step_other intro!: bexI [of _ r'])
next
  case False
  with assms show ?thesis
    by (auto simp: process_pincodes_def assign_const_def)
qed

lemma process_cities_rows:
  assumes "r \<in> set (rows (snd (process_cities df pin_df)))"
  shows "\<exists>r' \<in> set (rows df). \<forall>c. c \<noteq> ''AddreCity'' \<longrightarrow> r c = r' c"
proof (cases "''AddreCity'' \<in> set (labels df)")
  case True
  with assms obtain r' where "r' \<in> set (rows df)" and
    "r = fst (city_step pin_df (r'(''AddreCity'' :=
           Str (strip (py_str (fillna_empty (r' ''AddreCity'')))))))"
    by (auto simp: process_cities_def Let_def case_prod_beta)
  then show ?thesis
    by (auto simp: city_step_other intro!: bexI [of _ r'])
next
  case False
  with assms show ?thesis
    by (auto simp: process_cities_def assign_const_def)
qed

lemma process_pincodes_and_cities_rows:
  assumes "r \<in> set (rows (snd (process_pincodes_and_cities df pin_df)))"
  shows "\<exists>r' \<in> set (rows df). \<forall>c. c \<noteq> ''AddrePincode'' \<longrightarrow> c \<noteq> ''AddreCity'' \<longrightarrow> r c = r' c"
proof -
  have "r \<in> set (rows (snd (process_cities (snd (process_pincodes df)) pin_df)))"
    using assms by (simp add: process_pincodes_and_cities_def Let_def case_prod_beta)
  from process_cities_rows [OF this] obtain r1 where
    r1: "r1 \<in> set (rows (snd (process_pincodes df)))" "\<forall>c. c \<noteq> ''AddreCity'' \<longrightarrow> r c = r1 c"
    by blast
  from process_pincodes_rows [OF r1(1)] obtain r' where
    "r' \<in> set (rows df)" "\<forall>c. c \<noteq> ''AddrePincode'' \<longrightarrow> r1 c = r' c"
    by blast
  with r1(2) show ?thesis
    by (intro bexI [of _ r']) auto
qed

lemma py_concat_rows:
  assumes "py_concat dfs = Inr final"
  shows "rows final = concat (map rows dfs)"
  using assms by (cases dfs) (auto simp: py_concat_def split: if_splits)

lemma run_written_rows:
  assumes "snd (run e) = Some (path, out)" and "r \<in> set (rows out)"
  shows "\<exists>entries f l t r'. input_listing e = Some entries \<and> f \<in> set entries
           \<and> file_outcome (engine e) (snd (load_sender_details e)) f = (l, Appended t)
           \<and> r' \<in> set (rows t)
           \<and> (\<forall>c. c \<noteq> ''AddrePincode'' \<longrightarrow> c \<noteq> ''AddreCity'' \<longrightarrow> r c = r' c)"
proof -
  from run_Some [OF assms(1)] obtain entries st final where
    en: "input_listing e = Some entries" and st: "merged_dataframes st = []" and
    pc: "py_concat (merged_dataframes
               (fold (process_file (engine e) (snd (load_sender_details e)))
                  (filter (\<lambda>f. is_input (fname f)) entries) st)) = Inr final" and
    o: "out = snd (process_pincodes_and_cities final
                   (snd (load_pin_database (path_join (base_directory e) ''PIN.xlsx'')
                          (pin_sheet e) (pin_first_sheet e))))"
    by blast
  from process_pincodes_and_cities_rows [OF assms(2) [unfolded o]] obtain r' where
    r': "r' \<in> set (rows final)"
        "\<forall>c. c \<noteq> ''AddrePincode'' \<longrightarrow> c \<noteq> ''AddreCity'' \<longrightarrow> r c = r' c"
    by blast
  from r'(1) obtain t where
    t: "t \<in> set (merged_dataframes
               (fold (process_file (engine e) (snd (load_sender_details e)))
                  (filter (\<lambda>f. is_input (fname f)) entries) st))" and rt: "r' \<in> set (rows t)"
    unfolding py_concat_rows [OF pc] by auto
  from t st obtain f where f: "f \<in> set entries" and
    tf: "t \<in> set (case snd (file_outcome (engine e) (snd (load_sender_details e)) f) of
                     Appended df \<Rightarrow> [df] | _ \<Rightarrow> [])"
    by (auto simp: fold_process_file_merged)
  then have "snd (file_outcome (engine e) (snd (load_sender_details e)) f) = Appended t"
    by (cases "snd (file_outcome (engine e) (snd (load_sender_details e)) f)") auto
  then obtain l where "file_outcome (engine e) (snd (load_sender_details e)) f = (l, Appended t)"
    by (cases "file_outcome (engine e) (snd (load_sender_details e)) f") simp
  with en f rt r'(2) show ?thesis
    by blast
qed

lemma process_pincodes_and_cities_length:
  "length (rows (snd (process_pincodes_and_cities df pin_df))) = length (rows df)"
  by (simp add: process_pincodes_and_cities_def process_pincodes_def process_cities_def
      assign_const_def Let_def case_prod_beta)


section \<open>The reference table\<close>











section \<open>An example run\<close>

text \<open>A reference table of one row, a sender table of one row, and one input file
  \<open>abc-1.xlsx\<close> with the single column \<open>Name\<close>, which the sender row matches.\<close>

lemma example_mapping:
  "labels (snd (apply_mapping \<lparr>labels = [''Name''], rows = rs\<rparr>)) = [''AddreName'']"
proof -
  have mp: "snd (build_mapping \<lparr>labels = [''Name''], rows = []\<rparr>) = [(''Name'', ''AddreName'')]"
    by code_simp
  show ?thesis
    using mp build_mapping_labels [of "\<lparr>labels = [''Name''], rows = rs\<rparr>"]
    by (simp add: apply_mapping_def Let_def case_prod_beta rename_columns_def new_label_def)
qed

lemma example_no_address:
  "get_matching_columns (snd (apply_mapping \<lparr>labels = [''Name''], rows = rs\<rparr>)) address_columns = []"
proof -
  have "get_matching_columns \<lparr>labels = [''AddreName''], rows = []\<rparr> address_columns = []"
    by code_simp
  then show ?thesis
    using get_matching_columns_labels
            [of "snd (apply_mapping \<lparr>labels = [''Name''], rows = rs\<rparr>)" address_columns]
          example_mapping [of rs]
    by simp
qed

lemma example_run:
  "\<exists>path out. snd (run \<lparr>base_directory = ''/data'',
          pin_sheet = Inr \<lparr>labels = [''Pincode'', ''City''],
             rows = [(\<lambda>c. NaN)(''Pincode'' := Str ''400001'', ''City'' := Str ''Mumbai'')]\<rparr>,
          pin_first_sheet = Inl (IOError ''no sheet''),
          sender_workbook = Inr \<lparr>labels = [''File Name Contain'', ''SenderCity''],
             rows = [(\<lambda>c. NaN)(''File Name Contain'' := Str ''ABC Bank'', ''SenderCity'' := Str ''Pune'')]\<rparr>,
          input_listing = Some [\<lparr>fname = ''abc-1.xlsx'',
             read_result = Inr (\<lparr>labels = [''Name''], rows = [(\<lambda>c. NaN)(''Name'' := Str ''Asha'')]\<rparr>,
                                ''Sheet1'')\<rparr>],
          engine = (\<lambda>p. None), today = ''01012025'', to_excel_failure = None\<rparr>) = Some (path, out)"
proof -
  let ?r1 = "(\<lambda>c. NaN)(''File Name Contain'' := Str ''ABC Bank'', ''SenderCity'' := Str ''Pune'')"
  let ?sd = "\<lparr>labels = [''File Name Contain'', ''SenderCity''], rows = [?r1]\<rparr>"
  let ?df = "\<lparr>labels = [''Name''], rows = [(\<lambda>c. NaN)(''Name'' := Str ''Asha'')]\<rparr>"
  let ?f = "\<lparr>fname = ''abc-1.xlsx'', read_result = Inr (?df, ''Sheet1'')\<rparr>"
  let ?eng = "(\<lambda>p. None) :: regex_engine"
  let ?e = "\<lparr>base_directory = ''/data'',
          pin_sheet = Inr \<lparr>labels = [''Pincode'', ''City''],
             rows = [(\<lambda>c. NaN)(''Pincode'' := Str ''400001'', ''City'' := Str ''Mumbai'')]\<rparr>,
          pin_first_sheet = Inl (IOError ''no sheet''),
          sender_workbook = Inr \<lparr>labels = [''File Name Contain'', ''SenderCity''],
             rows = [(\<lambda>c. NaN)(''File Name Contain'' := Str ''ABC Bank'', ''SenderCity'' := Str ''Pune'')]\<rparr>,
          input_listing = Some [\<lparr>fname = ''abc-1.xlsx'',
             read_result = Inr (\<lparr>labels = [''Name''], rows = [(\<lambda>c. NaN)(''Name'' := Str ''Asha'')]\<rparr>,
                                ''Sheet1'')\<rparr>],
          engine = (\<lambda>p. None), today = ''01012025'', to_excel_failure = None\<rparr>"
  have key: "base_filename (fname ?f) = ''abc''"
    by code_simp
  have lit: "is_literal ''abc''"
    by code_simp
  have m1: "ci_contains ''abc'' ''ABC Bank''" by code_simp
  have fs: "find_sender ?eng ?sd (base_filename (fname ?f)) = Inr [?r1]"
    unfolding key
    by (simp add: find_sender_def df_empty_def compile_ignorecase_def lit m1)
  obtain l' out where en:
    "enrich (fname ?f) (if is_excel (fname ?f) then ''Sheet1'' else []) ?sd [?r1] ?df = (l', Inr out)"
    using enrich_no_address [OF example_no_address] by blast
  have rd: "read_result ?f = Inr (?df, ''Sheet1'')" by simp
  obtain l where fo: "file_outcome ?eng ?sd ?f = (l, Appended out)"
    using file_outcome_Appended_intro [OF rd fs _ en] by blast
  have pin: "snd (load_pin_database (path_join (base_directory ?e) ''PIN.xlsx'')
                  (pin_sheet ?e) (pin_first_sheet ?e)) \<noteq> []"
    by code_simp
  have inp: "is_input ''abc-1.xlsx''"
    by code_simp
  have ms: "concat (map (\<lambda>f. case snd (file_outcome (engine ?e) (snd (load_sender_details ?e)) f) of
                            Appended df \<Rightarrow> [df] | _ \<Rightarrow> [])
                  (filter (\<lambda>f. is_input (fname f)) [?f])) = [out]"
    using fo inp by (simp add: load_sender_details_def)
  have pc: "py_concat [out] = Inr \<lparr>labels = labels out, rows = concat (map rows [out])\<rparr>"
    by (simp add: py_concat_def)
  have "\<exists>path. snd (run ?e) = Some (path, snd (process_pincodes_and_cities
           \<lparr>labels = labels out, rows = concat (map rows [out])\<rparr>
           (snd (load_pin_database (path_join (base_directory ?e) ''PIN.xlsx'')
                          (pin_sheet ?e) (pin_first_sheet ?e)))))"
    by (rule run_writes [OF pin _ _ ms _ pc]) simp_all
  then show ?thesis by blast
qed

lemma example_distinct:
  assumes "input_listing \<lparr>base_directory = ''/data'',
          pin_sheet = Inr \<lparr>labels = [''Pincode'', ''City''],
             rows = [(\<lambda>c. NaN)(''Pincode'' := Str ''400001'', ''City'' := Str ''Mumbai'')]\<rparr>,
          pin_first_sheet = Inl (IOError ''no sheet''),
          sender_workbook = Inr \<lparr>labels = [''File Name Contain'', ''SenderCity''],
             rows = [(\<lambda>c. NaN)(''File Name Contain'' := Str ''ABC Bank'', ''SenderCity'' := Str ''Pune'')]\<rparr>,
          input_listing = Some [\<lparr>fname = ''abc-1.xlsx'',
             read_result = Inr (\<lparr>labels = [''Name''], rows = [(\<lambda>c. NaN)(''Name'' := Str ''Asha'')]\<rparr>,
                                ''Sheet1'')\<rparr>],
          engine = (\<lambda>p. None), today = ''01012025'', to_excel_failure = None\<rparr> = Some entries" and "f \<in> set entries"
    and "read_result f = Inr (df, sh)"
  shows "distinct (labels (snd (apply_mapping df)))"
proof -
  define df0 where "df0 = \<lparr>labels = [''Name''], rows = [(\<lambda>c. NaN)(''Name'' := Str ''Asha'')]\<rparr>"
  define f0 where "f0 = \<lparr>fname = ''abc-1.xlsx'', read_result = Inr (df0, ''Sheet1'')\<rparr>"
  have "entries = [f0]"
    using assms(1) unfolding f0_def df0_def by simp
  with assms(2) have "f = f0" by simp
  with assms(3) have "df = df0" by (simp add: f0_def)
  then show ?thesis
    unfolding df0_def by (simp add: example_mapping)
qed

lemma example_find_sender:
  "find_sender (\<lambda>p. None)
     \<lparr>labels = [''File Name Contain'', ''SenderCity''],
      rows = [(\<lambda>c. NaN)(''File Name Contain'' := Str ''ABC Bank'', ''SenderCity'' := Str ''Pune'')]\<rparr>
     (base_filename ''abc-1.xlsx'')
   = Inr [(\<lambda>c. NaN)(''File Name Contain'' := Str ''ABC Bank'', ''SenderCity'' := Str ''Pune'')]"
proof -
  have key: "base_filename ''abc-1.xlsx'' = ''abc''"
    by code_simp
  have lit: "is_literal ''abc''"
    by code_simp
  have m1: "ci_contains ''abc'' ''ABC Bank''" by code_simp
  show ?thesis
    unfolding key
    by (simp add: find_sender_def df_empty_def compile_ignorecase_def lit m1)
qed

lemma example_appended:
  assumes "enrich ''abc-1.xlsx'' sheet
             \<lparr>labels = [''File Name Contain'', ''SenderCity''],
              rows = [(\<lambda>c. NaN)(''File Name Contain'' := Str ''ABC Bank'', ''SenderCity'' := Str ''Pune'')]\<rparr>
             [(\<lambda>c. NaN)(''File Name Contain'' := Str ''ABC Bank'', ''SenderCity'' := Str ''Pune'')]
             df = (l', Inr out)"
  shows "\<exists>l. file_outcome (\<lambda>p. None)
             \<lparr>labels = [''File Name Contain'', ''SenderCity''],
              rows = [(\<lambda>c. NaN)(''File Name Contain'' := Str ''ABC Bank'', ''SenderCity'' := Str ''Pune'')]\<rparr>
             \<lparr>fname = ''abc-1.xlsx'', read_result = Inr (df, sheet)\<rparr> = (l, Appended out)"
proof -
  define sd where "sd = \<lparr>labels = [''File Name Contain'', ''SenderCity''],
              rows = [(\<lambda>c. NaN)(''File Name Contain'' := Str ''ABC Bank'', ''SenderCity'' := Str ''Pune'')]\<rparr>"
  define r1 where "r1 = (\<lambda>c. NaN)(''File Name Contain'' := Str ''ABC Bank'', ''SenderCity'' := Str ''Pune'')"
  define f where "f = \<lparr>fname = ''abc-1.xlsx'', read_result = Inr (df, sheet)\<rparr>"
  have x: "is_excel ''abc-1.xlsx''" by code_simp
  have rd: "read_result f = Inr (df, sheet)" by (simp add: f_def)
  have fs: "find_sender (\<lambda>p. None) sd (base_filename (fname f)) = Inr [r1]"
    unfolding sd_def r1_def f_def using example_find_sender by simp
  have en: "enrich (fname f) (if is_excel (fname f) then sheet else []) sd [r1] df = (l', Inr out)"
    using assms x unfolding sd_def r1_def f_def by simp
  have "\<exists>l. file_outcome (\<lambda>p. None) sd f = (l, Appended out)"
    by (rule file_outcome_Appended_intro [OF rd fs _ en]) simp
  then show ?thesis
    unfolding sd_def f_def .
qed


section \<open>C1: the columns of the written table\<close>

text \<open>
  Claim C1 says that the written spreadsheet has exactly the 25 canonical columns in
  their fixed order, each present, and empty when the source file has none.
  \<open>output_columns\<close> lists 26 labels (\<open>SENDERMOBILE\<close> follows \<open>ADDRMOBILE\<close>):
  the run below, of one file matched by a sender row, writes a table of 26 columns.
\<close>

theorem written_column_count_counterexample:
  "(case snd (run \<lparr>base_directory = ''/data'',
          pin_sheet = Inr \<lparr>labels = [''Pincode'', ''City''],
             rows = [(\<lambda>c. NaN)(''Pincode'' := Str ''400001'', ''City'' := Str ''Mumbai'')]\<rparr>,
          pin_first_sheet = Inl (IOError ''no sheet''),
          sender_workbook = Inr \<lparr>labels = [''File Name Contain'', ''SenderCity''],
             rows = [(\<lambda>c. NaN)(''File Name Contain'' := Str ''ABC Bank'', ''SenderCity'' := Str ''Pune'')]\<rparr>,
          input_listing = Some [\<lparr>fname = ''abc-1.xlsx'',
             read_result = Inr (\<lparr>labels = [''Name''], rows = [(\<lambda>c. NaN)(''Name'' := Str ''Asha'')]\<rparr>,
                                ''Sheet1'')\<rparr>],
          engine = (\<lambda>p. None), today = ''01012025'', to_excel_failure = None\<rparr>) of
      Some (path, out) \<Rightarrow> length (labels out) = 26 \<and> length (labels out) \<noteq> 25
    | None \<Rightarrow> False)"
proof -
  define e where "e = \<lparr>base_directory = ''/data'',
          pin_sheet = Inr \<lparr>labels = [''Pincode'', ''City''],
             rows = [(\<lambda>c. NaN)(''Pincode'' := Str ''400001'', ''City'' := Str ''Mumbai'')]\<rparr>,
          pin_first_sheet = Inl (IOError ''no sheet''),
          sender_workbook = Inr \<lparr>labels = [''File Name Contain'', ''SenderCity''],
             rows = [(\<lambda>c. NaN)(''File Name Contain'' := Str ''ABC Bank'', ''SenderCity'' := Str ''Pune'')]\<rparr>,
          input_listing = Some [\<lparr>fname = ''abc-1.xlsx'',
             read_result = Inr (\<lparr>labels = [''Name''], rows = [(\<lambda>c. NaN)(''Name'' := Str ''Asha'')]\<rparr>,
                                ''Sheet1'')\<rparr>],
          engine = (\<lambda>p. None), today = ''01012025'', to_excel_failure = None\<rparr>"
  obtain path out where w: "snd (run e) = Some (path, out)"
    unfolding e_def using example_run by blast
  have "labels out = output_columns"
  proof (rule run_written_labels [OF w])
    fix entries f df sh
    assume "input_listing e = Some entries" and "f \<in> set entries" and "read_result f = Inr (df, sh)"
    then show "distinct (labels (snd (apply_mapping df)))"
      unfolding e_def by (rule example_distinct)
  qed
  then have "length (labels out) = 26"
    by (simp add: output_columns_def)
  then have "(case snd (run e) of
      Some (path, out) \<Rightarrow> length (labels out) = 26 \<and> length (labels out) \<noteq> 25
    | None \<Rightarrow> False)"
    unfolding w by simp
  then show ?thesis
    unfolding e_def .
qed

text \<open>
  Claim C1, amended. For every run that writes a table, the file names, the headers
  of the files and the keys of the sender table being ASCII and no file having two
  headers renamed onto one label: the labels of the written table are the 26 labels
  of \<open>output_columns\<close>, in that order and without repetition; and every row of the
  table comes from a file of the listing such that the row is the empty text under
  each output column that is not a label of the file's renamed frame, the columns
  aside that the program fills itself: \<open>SL\<close>, the six sender fields,
  \<open>Input File Name\<close>, \<open>Sheet Name\<close>, \<open>AddreADD1\<close> when the file has an address
  column, and \<open>AddrePincode\<close> and \<open>AddreCity\<close>, which the pass over the merged
  table may fill.
\<close>

theorem written_columns_are_output_columns:
  assumes "snd (run e) = Some (path, out)" and "input_listing e = Some entries"
    and "list_all (\<lambda>f. is_ascii (fname f)
            \<and> (case read_result f of
                  Inl x \<Rightarrow> True
                | Inr (df, sh) \<Rightarrow> list_all is_ascii (labels df)
                                   \<and> distinct (labels (snd (apply_mapping df))))) entries"
    and "list_all (\<lambda>r. is_ascii (py_str (r ''File Name Contain'')))
           (rows (snd (load_sender_details e)))"
  shows "labels out = output_columns \<and> length (labels out) = 26 \<and> distinct (labels out)
       \<and> (\<forall>r \<in> set (rows out). \<exists>f df sh. f \<in> set entries \<and> read_result f = Inr (df, sh)
            \<and> (\<forall>c \<in> set output_columns.
                  c \<notin> set (labels (snd (apply_mapping df))) \<longrightarrow> c \<notin> set sender_fields
                  \<longrightarrow> c \<notin> {''SL'', ''Input File Name'', ''Sheet Name'', ''AddrePincode'', ''AddreCity''}
                  \<longrightarrow> (c = ''AddreADD1''
                        \<longrightarrow> get_matching_columns (snd (apply_mapping df)) address_columns = [])
                  \<longrightarrow> r c = Str []))"
proof -
  have nocoll: "distinct (labels (snd (apply_mapping df)))"
    if "input_listing e = Some es" "f \<in> set es" "read_result f = Inr (df, sh)" for es f df sh
  proof -
    from that(1) assms(2) have "es = entries" by simp
    with that(2) assms(3) have "case read_result f of
                  Inl x \<Rightarrow> True
                | Inr (df, sh) \<Rightarrow> list_all is_ascii (labels df)
                                   \<and> distinct (labels (snd (apply_mapping df)))"
      by (simp add: list_all_iff)
    with that(3) show ?thesis by simp
  qed
  have lab: "labels out = output_columns"
    by (rule run_written_labels [OF assms(1) nocoll])
  have len: "length (labels out) = 26"
    unfolding lab by (simp add: output_columns_def)
  have dis: "distinct (labels out)"
    unfolding lab by (rule distinct_output_columns)
  have rws: "(\<forall>r \<in> set (rows out). \<exists>f df sh. f \<in> set entries \<and> read_result f = Inr (df, sh)
            \<and> (\<forall>c \<in> set output_columns.
                  c \<notin> set (labels (snd (apply_mapping df))) \<longrightarrow> c \<notin> set sender_fields
                  \<longrightarrow> c \<notin> {''SL'', ''Input File Name'', ''Sheet Name'', ''AddrePincode'', ''AddreCity''}
                  \<longrightarrow> (c = ''AddreADD1''
                        \<longrightarrow> get_matching_columns (snd (apply_mapping df)) address_columns = [])
                  \<longrightarrow> r c = Str []))"
  proof
    fix r assume "r \<in> set (rows out)"
    from run_written_rows [OF assms(1) this] assms(2) obtain f l t r' where
      f: "f \<in> set entries" and
      fo: "file_outcome (engine e) (snd (load_sender_details e)) f = (l, Appended t)" and
      r': "r' \<in> set (rows t)" and
      same: "\<forall>c. c \<noteq> ''AddrePincode'' \<longrightarrow> c \<noteq> ''AddreCity'' \<longrightarrow> r c = r' c"
      by auto
    from file_outcome_Appended [OF fo] obtain df sh info rest l' where
      rd: "read_result f = Inr (df, sh)" and
      en: "enrich (fname f) (if is_excel (fname f) then sh else []) (snd (load_sender_details e))
             (info # rest) df = (l', Inr t)"
      by blast
    have dflt: "r c = Str []"
      if "c \<in> set output_columns" "c \<notin> set (labels (snd (apply_mapping df)))"
         "c \<notin> set sender_fields"
         "c \<notin> {''SL'', ''Input File Name'', ''Sheet Name'', ''AddrePincode'', ''AddreCity''}"
         "c = ''AddreADD1'' \<longrightarrow> get_matching_columns (snd (apply_mapping df)) address_columns = []"
      for c
    proof -
      have "r' c = Str []"
        using that by (intro enrich_default [OF en _ _ _ _ _ _ _ r']) auto
      moreover have "r c = r' c"
        using same that(4) by simp
      ultimately show ?thesis by simp
    qed
    have all: "\<forall>c \<in> set output_columns.
                  c \<notin> set (labels (snd (apply_mapping df))) \<longrightarrow> c \<notin> set sender_fields
                  \<longrightarrow> c \<notin> {''SL'', ''Input File Name'', ''Sheet Name'', ''AddrePincode'', ''AddreCity''}
                  \<longrightarrow> (c = ''AddreADD1''
                        \<longrightarrow> get_matching_columns (snd (apply_mapping df)) address_columns = [])
                  \<longrightarrow> r c = Str []"
      by (intro ballI impI) (rule dflt; assumption)
    show "\<exists>f df sh. f \<in> set entries \<and> read_result f = Inr (df, sh)
            \<and> (\<forall>c \<in> set output_columns.
                  c \<notin> set (labels (snd (apply_mapping df))) \<longrightarrow> c \<notin> set sender_fields
                  \<longrightarrow> c \<notin> {''SL'', ''Input File Name'', ''Sheet Name'', ''AddrePincode'', ''AddreCity''}
                  \<longrightarrow> (c = ''AddreADD1''
                        \<longrightarrow> get_matching_columns (snd (apply_mapping df)) address_columns = [])
                  \<longrightarrow> r c = Str [])"
      by (rule exI [of _ f], rule exI [of _ df], rule exI [of _ sh]) (intro conjI f rd all)
  qed
  show ?thesis
    by (rule conjI [OF lab conjI [OF len conjI [OF dis rws]]])
qed

text \<open>The run met above: the table written has the labels of \<open>output_columns\<close> and
  one row, whose \<open>Barcode\<close> and \<open>Weight\<close>, which the file lacks, are empty.\<close>

theorem written_columns_are_output_columns_witness:
  "(case snd (run \<lparr>base_directory = ''/data'',
          pin_sheet = Inr \<lparr>labels = [''Pincode'', ''City''],
             rows = [(\<lambda>c. NaN)(''Pincode'' := Str ''400001'', ''City'' := Str ''Mumbai'')]\<rparr>,
          pin_first_sheet = Inl (IOError ''no sheet''),
          sender_workbook = Inr \<lparr>labels = [''File Name Contain'', ''SenderCity''],
             rows = [(\<lambda>c. NaN)(''File Name Contain'' := Str ''ABC Bank'', ''SenderCity'' := Str ''Pune'')]\<rparr>,
          input_listing = Some [\<lparr>fname = ''abc-1.xlsx'',
             read_result = Inr (\<lparr>labels = [''Name''], rows = [(\<lambda>c. NaN)(''Name'' := Str ''Asha'')]\<rparr>,
                                ''Sheet1'')\<rparr>],
          engine = (\<lambda>p. None), today = ''01012025'', to_excel_failure = None\<rparr>) of
      Some (path, out) \<Rightarrow>
        labels out = output_columns \<and> length (rows out) = 1
        \<and> list_all (\<lambda>r. r ''Barcode'' = Str [] \<and> r ''Weight'' = Str []) (rows out)
    | None \<Rightarrow> False)"
proof -
  define s1 where "s1 = (\<lambda>c. NaN)(''File Name Contain'' := Str ''ABC Bank'', ''SenderCity'' := Str ''Pune'')"
  define sd where "sd = \<lparr>labels = [''File Name Contain'', ''SenderCity''], rows = [s1]\<rparr>"
  define df where "df = \<lparr>labels = [''Name''], rows = [(\<lambda>c. NaN)(''Name'' := Str ''Asha'')]\<rparr>"
  define f where "f = \<lparr>fname = ''abc-1.xlsx'', read_result = Inr (df, ''Sheet1'')\<rparr>"
  define e where "e = \<lparr>base_directory = ''/data'',
          pin_sheet = Inr \<lparr>labels = [''Pincode'', ''City''],
             rows = [(\<lambda>c. NaN)(''Pincode'' := Str ''400001'', ''City'' := Str ''Mumbai'')]\<rparr>,
          pin_first_sheet = Inl (IOError ''no sheet''),
          sender_workbook = Inr sd,
          input_listing = Some [f],
          engine = (\<lambda>p. None), today = ''01012025'', to_excel_failure = None\<rparr>"
  obtain path out where w: "snd (run e) = Some (path, out)"
    unfolding e_def f_def df_def sd_def s1_def using example_run by blast
  have il: "input_listing e = Some [f]" by (simp add: e_def)
  have eng: "engine e = (\<lambda>p. None)" by (simp add: e_def)
  have sde: "snd (load_sender_details e) = sd"
    by (simp add: load_sender_details_def e_def)
  have rd: "read_result f = Inr (df, ''Sheet1'')" by (simp add: f_def)
  have fn: "fname f = ''abc-1.xlsx''" by (simp add: f_def)
  have asc: "is_ascii (fname f)" by (simp add: fn is_ascii_def)
  have heads: "list_all is_ascii (labels df)" by (simp add: df_def is_ascii_def)
  have lm: "labels (snd (apply_mapping df)) = [''AddreName'']"
    unfolding df_def by (rule example_mapping)
  have na: "get_matching_columns (snd (apply_mapping df)) address_columns = []"
    unfolding df_def by (rule example_no_address)
  have h3: "list_all (\<lambda>f. is_ascii (fname f)
            \<and> (case read_result f of
                  Inl x \<Rightarrow> True
                | Inr (df, sh) \<Rightarrow> list_all is_ascii (labels df)
                                   \<and> distinct (labels (snd (apply_mapping df))))) [f]"
    by (simp add: rd asc heads lm)
  have h4: "list_all (\<lambda>r. is_ascii (py_str (r ''File Name Contain'')))
              (rows (snd (load_sender_details e)))"
    unfolding sde by (simp add: sd_def s1_def is_ascii_def)
  note inst = written_columns_are_output_columns [OF w il h3 h4]
  have lab: "labels out = output_columns"
    using inst by (rule conjunct1)
  define P where "P = (\<lambda>df' (r :: row). \<forall>c \<in> set output_columns.
                  c \<notin> set (labels (snd (apply_mapping df'))) \<longrightarrow> c \<notin> set sender_fields
                  \<longrightarrow> c \<notin> {''SL'', ''Input File Name'', ''Sheet Name'', ''AddrePincode'', ''AddreCity''}
                  \<longrightarrow> (c = ''AddreADD1''
                        \<longrightarrow> get_matching_columns (snd (apply_mapping df')) address_columns = [])
                  \<longrightarrow> r c = Str [])"
  have rws: "\<forall>r \<in> set (rows out). \<exists>f' df' sh. f' \<in> set [f] \<and> read_result f' = Inr (df', sh)
            \<and> P df' r"
    unfolding P_def using inst by (elim conjE)
  have cells: "r ''Barcode'' = Str [] \<and> r ''Weight'' = Str []" if "r \<in> set (rows out)" for r
  proof -
    from rws that obtain f' df' sh where
      f': "f' \<in> set [f]" and rd': "read_result f' = Inr (df', sh)" and all0: "P df' r"
      by blast
    note all = all0 [unfolded P_def]
    from f' have "f' = f" by simp
    with rd' rd have d: "df' = df" by simp
    have b: "r ''Barcode'' = Str []"
      using all [THEN bspec, of "''Barcode''"] unfolding d lm
      by (simp add: output_columns_def sender_fields_def)
    have c: "r ''Weight'' = Str []"
      using all [THEN bspec, of "''Weight''"] unfolding d lm
      by (simp add: output_columns_def sender_fields_def)
    from b c show ?thesis by (rule conjI)
  qed
  have dflt: "list_all (\<lambda>r. r ''Barcode'' = Str [] \<and> r ''Weight'' = Str []) (rows out)"
    unfolding list_all_iff by (rule ballI) (rule cells)
  have inp: "is_input ''abc-1.xlsx''" by code_simp
  obtain l' t where en: "enrich ''abc-1.xlsx'' ''Sheet1'' sd [s1] df = (l', Inr t)"
    using enrich_no_address [OF na] by blast
  obtain l where fo: "file_outcome (\<lambda>p. None) sd f = (l, Appended t)"
    using example_appended [OF en [unfolded sd_def s1_def]] unfolding sd_def s1_def f_def by blast
  from run_Some [OF w] il obtain st final where
    st: "merged_dataframes st = []" and
    pc: "py_concat (merged_dataframes
               (fold (process_file (engine e) (snd (load_sender_details e)))
                  (filter (\<lambda>f. is_input (fname f)) [f]) st)) = Inr final" and
    o: "out = snd (process_pincodes_and_cities final
                   (snd (load_pin_database (path_join (base_directory e) ''PIN.xlsx'')
                          (pin_sheet e) (pin_first_sheet e))))"
    by auto
  have "merged_dataframes (fold (process_file (engine e) (snd (load_sender_details e)))
                  (filter (\<lambda>f. is_input (fname f)) [f]) st) = [t]"
    unfolding eng sde by (simp add: fn inp process_file_merged st fo)
  with pc have "py_concat [t] = Inr final" by simp
  from py_concat_rows [OF this] have "length (rows final) = length (rows t)" by simp
  also have "\<dots> = 1" using enrich_length [OF en] by (simp add: df_def)
  finally have n: "length (rows out) = 1"
    unfolding o by (simp add: process_pincodes_and_cities_length)
  have "(case snd (run e) of
      Some (path, out) \<Rightarrow>
        labels out = output_columns \<and> length (rows out) = 1
        \<and> list_all (\<lambda>r. r ''Barcode'' = Str [] \<and> r ''Weight'' = Str []) (rows out)
    | None \<Rightarrow> False)"
    unfolding w using conjI [OF lab conjI [OF n dflt]] by simp
  then show ?thesis
    unfolding e_def f_def df_def sd_def s1_def .
qed


section \<open>C2: a file without a sender match\<close>

text \<open>
  Claim C2 says that a file contributes no row when no row of the sender table
  contains the truncated filename key as a case-insensitive substring. The lookup,
  \<open>Series.str.contains(base_filename, na=False, case=False)\<close>, is written as that
  containment test, but \<open>str.contains\<close> has \<open>regex=True\<close> as its default, and
  the key is searched as a regular expression. For the file \<open>a+.csv\<close> the key is
  \<open>a+\<close>, which Python's \<open>re\<close> finds (with \<open>IGNORECASE\<close>) in every text that
  holds an \<open>a\<close> or an \<open>A\<close>; the engine below gives that verdict. The sender key
  \<open>A\<close> does not contain \<open>a+\<close>, and still the frame of the file, of one row, is
  appended to the merged batch.
\<close>

theorem filename_key_searched_as_regex:
  "\<not> ci_contains (base_filename ''a+.csv'') ''A''
   \<and> map (\<lambda>t. length (rows t))
       (merged_dataframes (process_file
          (\<lambda>p. if p = ''a+'' then Some (ci_contains ''a'') else None)
          \<lparr>labels = [''File Name Contain'', ''SenderCity''],
           rows = [(\<lambda>c. NaN)(''File Name Contain'' := Str ''A'', ''SenderCity'' := Str ''Pune'')]\<rparr>
          \<lparr>fname = ''a+.csv'',
           read_result = Inr (\<lparr>labels = [''Name''], rows = [(\<lambda>c. NaN)(''Name'' := Str ''Asha'')]\<rparr>, [])\<rparr>
          \<lparr>loglines = [], merged_dataframes = [], processed_count = 0, error_count = 0\<rparr>))
     = [1]"
proof -
  let ?r1 = "(\<lambda>c. NaN)(''File Name Contain'' := Str ''A'', ''SenderCity'' := Str ''Pune'')"
  let ?sd = "\<lparr>labels = [''File Name Contain'', ''SenderCity''], rows = [?r1]\<rparr>"
  let ?df = "\<lparr>labels = [''Name''], rows = [(\<lambda>c. NaN)(''Name'' := Str ''Asha'')]\<rparr>"
  let ?f = "\<lparr>fname = ''a+.csv'', read_result = Inr (?df, [])\<rparr>"
  let ?eng = "(\<lambda>p. if p = ''a+'' then Some (ci_contains ''a'') else None) :: regex_engine"
  let ?st = "\<lparr>loglines = [], merged_dataframes = [], processed_count = 0, error_count = 0\<rparr>"
  have key: "base_filename ''a+.csv'' = ''a+''"
    by code_simp
  have nolit: "\<not> is_literal ''a+''"
    by code_simp
  have nosub: "\<not> ci_contains ''a+'' ''A''"
    by code_simp
  have found: "ci_contains ''a'' ''A''"
    by code_simp
  have fs: "find_sender ?eng ?sd (base_filename (fname ?f)) = Inr [?r1]"
    by (simp add: key find_sender_def df_empty_def compile_ignorecase_def nolit found)
  have mp: "snd (build_mapping \<lparr>labels = [''Name''], rows = []\<rparr>) = [(''Name'', ''AddreName'')]"
    by code_simp
  have l1: "labels (snd (apply_mapping ?df)) = [''AddreName'']"
    using mp build_mapping_labels [of ?df]
    by (simp add: apply_mapping_def Let_def case_prod_beta rename_columns_def new_label_def)
  have "get_matching_columns \<lparr>labels = [''AddreName''], rows = []\<rparr> address_columns = []"
    by code_simp
  then have na: "get_matching_columns (snd (apply_mapping ?df)) address_columns = []"
    using get_matching_columns_labels [of "snd (apply_mapping ?df)" address_columns] l1 by simp
  obtain l' out where en:
    "enrich (fname ?f) (if is_excel (fname ?f) then [] else []) ?sd [?r1] ?df = (l', Inr out)"
    using enrich_no_address [OF na] by blast
  have rd: "read_result ?f = Inr (?df, [])" by simp
  obtain l where fo: "file_outcome ?eng ?sd ?f = (l, Appended out)"
    using file_outcome_Appended_intro [OF rd fs _ en] by blast
  have n: "length (rows out) = 1"
    using enrich_length [OF en] by simp
  have "merged_dataframes (process_file ?eng ?sd ?f ?st) = [out]"
    using fo by (simp add: process_file_merged)
  with n nosub key show ?thesis by simp
qed


section \<open>C3: the composite address\<close>





section \<open>C4: \<open>clean_pincode\<close>\<close>

text \<open>
  Claim C4 says that \<open>clean_pincode\<close> keeps the digits of its input and returns them
  exactly when there are six, returns the empty text otherwise and for a missing
  input, and that it maps \<open>11 0001\<close> to the empty text and \<open>110-001\<close> to \<open>110001\<close>.
  The text \<open>11 0001\<close> holds six digits, so the function returns \<open>110001\<close> for it:
  the first example of the claim fails.
\<close>

theorem clean_pincode_example_counterexample:
  "clean_pincode (Str ''11 0001'') \<noteq> []"
  by code_simp

text \<open>
  Claim C4, amended: for every input, \<open>clean_pincode\<close> returns the digits of the
  input's text when these are exactly six, and the empty text otherwise; a missing
  input gives the empty text; \<open>11 0001\<close> and \<open>110-001\<close> both give \<open>110001\<close>.
\<close>

theorem clean_pincode_six_digits:
  "clean_pincode v =
     (if v \<noteq> NaN \<and> length (filter is_digit (py_str v)) = 6
      then filter is_digit (py_str v) else [])
   \<and> clean_pincode NaN = []
   \<and> clean_pincode (Str ''11 0001'') = ''110001''
   \<and> clean_pincode (Str ''110-001'') = ''110001''"
proof -
  have general: "clean_pincode v =
     (if v \<noteq> NaN \<and> length (filter is_digit (py_str v)) = 6
      then filter is_digit (py_str v) else [])"
    using digits_only_strip [of "py_str v"]
    by (simp add: clean_pincode_def isna_def Let_def digits_only_def)
  have missing: "clean_pincode NaN = []"
    by (simp add: clean_pincode_def isna_def)
  have spaced: "clean_pincode (Str ''11 0001'') = ''110001''"
    by code_simp
  have hyphen: "clean_pincode (Str ''110-001'') = ''110001''"
    by code_simp
  from general missing spaced hyphen show ?thesis by blast
qed


section \<open>C5: \<open>extract_pincode_from_text\<close>\<close>

text \<open>
  Claim C5 says that \<open>extract_pincode_from_text\<close> returns the first six-digit run
  between word boundaries, else the first match of three digits, an optional space or
  hyphen and three digits with the separator removed, else the empty text. The second
  pattern of the function accepts any whitespace character as the separator, and only
  the space and the hyphen are removed from the match: on two groups of three digits
  with a tab between them, the function returns the seven characters of the match,
  the tab among them.
\<close>

theorem extract_keeps_whitespace_separator:
  "extract_pincode_from_text (Str (''110'' @ [CHR 0x09] @ ''001'')) = ''110'' @ [CHR 0x09] @ ''001''
   \<and> length (extract_pincode_from_text (Str (''110'' @ [CHR 0x09] @ ''001''))) = 7
   \<and> extract_pincode_from_text (Str ''Address near 110 001 Delhi'') = ''110001''"
  by code_simp


section \<open>C6: the rows of the reference table\<close>





section \<open>C7: the city of a pincode that occurs twice\<close>

lemma pin_matches_first:
  assumes "pin_df = before @ (p, c) # rest" and "list_all (\<lambda>(q, d). q \<noteq> p) before"
  shows "\<exists>others. pin_matches pin_df (Str p) = (p, c) # others"
proof -
  have "filter (\<lambda>(q, d). Str q = Str p) before = []"
    using assms(2) by (induction before) auto
  then show ?thesis
    using assms(1) by (simp add: pin_matches_def)
qed

text \<open>
  Claim C7: the city lookup of the backfill returns the city of the first row of the
  reference table that holds the pincode. For a row of the batch whose city is empty
  and whose pincode is \<open>p\<close>, and a reference table in which \<open>(p, c)\<close> is the first
  row with pincode \<open>p\<close>, the city pass leaves the row with city \<open>c\<close>.
\<close>

theorem lookup_first_occurrence:
  assumes "pin_df = before @ (p, c) # rest"
    and "list_all (\<lambda>(q, d). q \<noteq> p) before"
    and "''AddreCity'' \<in> set (labels df)"
    and "i < length (rows df)"
    and "strip (py_str (fillna_empty ((rows df ! i) ''AddreCity''))) = []"
    and "(rows df ! i) ''AddrePincode'' = Str p" and "p \<noteq> []"
  shows "(rows (snd (process_cities df pin_df)) ! i) ''AddreCity'' = Str c"
proof -
  obtain others where m: "pin_matches pin_df (Str p) = (p, c) # others"
    using pin_matches_first [OF assms(1,2)] by blast
  let ?r = "(rows df ! i)(''AddreCity'' :=
              Str (strip (py_str (fillna_empty ((rows df ! i) ''AddreCity'')))))"
  have step: "city_step pin_df ?r = (?r(''AddreCity'' := Str c), 1, [])"
    using assms(5,6,7) m by (simp add: city_step_def)
  show ?thesis
    using assms(3,4) step by (simp add: process_cities_def Let_def)
qed

text \<open>The table of the claim: \<open>100000\<close> with MUMBAI, then \<open>100000\<close> with DELHI.\<close>

theorem lookup_first_occurrence_witness:
  "(rows (snd (process_cities
       \<lparr>labels = [''AddreCity'', ''AddrePincode''],
        rows = [(\<lambda>c. Str [])(''AddrePincode'' := Str ''100000'')]\<rparr>
       [(''100000'', ''MUMBAI''), (''100000'', ''DELHI'')])) ! 0) ''AddreCity'' = Str ''MUMBAI''"
proof -
  let ?df = "\<lparr>labels = [''AddreCity'', ''AddrePincode''],
        rows = [(\<lambda>c. Str [])(''AddrePincode'' := Str ''100000'')]\<rparr>"
  have h1: "[(''100000'', ''MUMBAI''), (''100000'', ''DELHI'')]
            = [] @ (''100000'', ''MUMBAI'') # [(''100000'', ''DELHI'')]"
    by simp
  have h2: "list_all (\<lambda>(q, d). q \<noteq> ''100000'') ([] :: (string \<times> string) list)" by simp
  have h3: "''AddreCity'' \<in> set (labels ?df)" by simp
  have h4: "0 < length (rows ?df)" by simp
  have h5: "strip (py_str (fillna_empty ((rows ?df ! 0) ''AddreCity''))) = []"
    by (simp add: strip_def)
  have h6: "(rows ?df ! 0) ''AddrePincode'' = Str ''100000''" by simp
  have h7: "''100000'' \<noteq> []" by simp
  show ?thesis
    using lookup_first_occurrence [OF h1 h2 h3 h4 h5 h6 h7] .
qed


section \<open>C8: the fatal conditions\<close>

text \<open>
  Claim C8: when the reference table cannot be read or loads without a valid row, or
  the input directory does not exist, the run writes no artifact, and the lines logged
  up to the abort are in the log. When the loaded table is empty the run returns the
  header lines, the loader's lines and the abort line, and no artifact; a workbook of
  which neither sheet can be read loads as the empty table; when the directory is
  missing the run returns no artifact, and (the table loaded) its log is the lines of
  the header, of the loader and of the sender workbook, then the abort line.
\<close>

theorem fatal_conditions_write_nothing:
  "(snd (load_pin_database (path_join (base_directory e) ''PIN.xlsx'') (pin_sheet e) (pin_first_sheet e)) = []
      \<longrightarrow> run e = (header_lines e
                    @ fst (load_pin_database (path_join (base_directory e) ''PIN.xlsx'') (pin_sheet e) (pin_first_sheet e))
                    @ [Line ''Error: PIN database not loaded.  Processing stopped.''], None))
   \<and> (pin_sheet e = Inl x \<and> pin_first_sheet e = Inl y
      \<longrightarrow> snd (load_pin_database (path_join (base_directory e) ''PIN.xlsx'') (pin_sheet e) (pin_first_sheet e)) = [])
   \<and> (input_listing e = None
      \<longrightarrow> snd (run e) = None
        \<and> (snd (load_pin_database (path_join (base_directory e) ''PIN.xlsx'') (pin_sheet e) (pin_first_sheet e)) \<noteq> []
           \<longrightarrow> fst (run e) = header_lines e
                    @ fst (load_pin_database (path_join (base_directory e) ''PIN.xlsx'') (pin_sheet e) (pin_first_sheet e))
                    @ fst (load_sender_details e)
                    @ [Line (''Input directory not found: '' @ path_join (base_directory e) ''Input'')]))"
  by (auto simp: run_def load_pin_database_def Let_def split: prod.splits sum.splits)

theorem fatal_conditions_write_nothing_witness:
  "run \<lparr>base_directory = ''/data'', pin_sheet = Inl (IOError ''no file''),
        pin_first_sheet = Inl (IOError ''no file''), sender_workbook = Inl (IOError ''no file''),
        input_listing = None, engine = (\<lambda>p. None), today = ''01012025'',
        to_excel_failure = None\<rparr>
     = ([Line ''Base directory: /data'',
         Line ''Looking for PIN file at: /data/PIN.xlsx'',
         Line ''Looking for sender details at: /data/Sender Address.xlsx'',
         Line ''Reading input files from: /data/Input'',
         Line ''Output will be saved to: /data/Output'',
         Line ''Loading PIN database...'',
         Line ''Loading PIN database from: /data/PIN.xlsx'',
         ErrorLine ''TBLPINCITY sheet not found: '' (IOError ''no file''),
         Line ''Trying to read the first sheet instead...'',
         ErrorLine ''Error loading PIN database: '' (IOError ''no file''),
         Traceback (IOError ''no file''),
         Line ''Error: PIN database not loaded.  Processing stopped.''], None)
   \<and> snd (run \<lparr>base_directory = ''/data'',
        pin_sheet = Inr \<lparr>labels = [''Pincode'', ''City''],
                         rows = [(\<lambda>c. NaN)(''Pincode'' := Str ''400001'', ''City'' := Str ''Mumbai'')]\<rparr>,
        pin_first_sheet = Inl (IOError ''no file''), sender_workbook = Inl (IOError ''no file''),
        input_listing = None, engine = (\<lambda>p. None), today = ''01012025'',
        to_excel_failure = None\<rparr>) = None
   \<and> last (fst (run \<lparr>base_directory = ''/data'',
        pin_sheet = Inr \<lparr>labels = [''Pincode'', ''City''],
                         rows = [(\<lambda>c. NaN)(''Pincode'' := Str ''400001'', ''City'' := Str ''Mumbai'')]\<rparr>,
        pin_first_sheet = Inl (IOError ''no file''), sender_workbook = Inl (IOError ''no file''),
        input_listing = None, engine = (\<lambda>p. None), today = ''01012025'',
        to_excel_failure = None\<rparr>)) = Line ''Input directory not found: /data/Input''"
proof -
  let ?e1 = "\<lparr>base_directory = ''/data'', pin_sheet = Inl (IOError ''no file''),
        pin_first_sheet = Inl (IOError ''no file''), sender_workbook = Inl (IOError ''no file''),
        input_listing = None, engine = (\<lambda>p. None), today = ''01012025'',
        to_excel_failure = None\<rparr>"
  let ?e2 = "\<lparr>base_directory = ''/data'',
        pin_sheet = Inr \<lparr>labels = [''Pincode'', ''City''],
                         rows = [(\<lambda>c. NaN)(''Pincode'' := Str ''400001'', ''City'' := Str ''Mumbai'')]\<rparr>,
        pin_first_sheet = Inl (IOError ''no file''), sender_workbook = Inl (IOError ''no file''),
        input_listing = None, engine = (\<lambda>p. None), today = ''01012025'',
        to_excel_failure = None\<rparr>"
  have unread: "pin_sheet ?e1 = Inl (IOError ''no file'') \<and> pin_first_sheet ?e1 = Inl (IOError ''no file'')"
    by simp
  have empty: "snd (load_pin_database (path_join (base_directory ?e1) ''PIN.xlsx'') (pin_sheet ?e1) (pin_first_sheet ?e1)) = []"
    using fatal_conditions_write_nothing [of ?e1 "IOError ''no file''" "IOError ''no file''"] unread by blast
  have r1: "run ?e1 = (header_lines ?e1
                    @ fst (load_pin_database (path_join (base_directory ?e1) ''PIN.xlsx'') (pin_sheet ?e1) (pin_first_sheet ?e1))
                    @ [Line ''Error: PIN database not loaded.  Processing stopped.''], None)"
    using fatal_conditions_write_nothing [of ?e1] empty by blast
  have lines1: "header_lines ?e1
                    @ fst (load_pin_database (path_join (base_directory ?e1) ''PIN.xlsx'') (pin_sheet ?e1) (pin_first_sheet ?e1))
                    @ [Line ''Error: PIN database not loaded.  Processing stopped.'']
     = [Line ''Base directory: /data'',
         Line ''Looking for PIN file at: /data/PIN.xlsx'',
         Line ''Looking for sender details at: /data/Sender Address.xlsx'',
         Line ''Reading input files from: /data/Input'',
         Line ''Output will be saved to: /data/Output'',
         Line ''Loading PIN database...'',
         Line ''Loading PIN database from: /data/PIN.xlsx'',
         ErrorLine ''TBLPINCITY sheet not found: '' (IOError ''no file''),
         Line ''Trying to read the first sheet instead...'',
         ErrorLine ''Error loading PIN database: '' (IOError ''no file''),
         Traceback (IOError ''no file''),
         Line ''Error: PIN database not loaded.  Processing stopped.'']"
    by (simp add: header_lines_def load_pin_database_def path_join_def)
  have nodir: "input_listing ?e2 = None" by simp
  have loaded: "snd (load_pin_database (path_join (base_directory ?e2) ''PIN.xlsx'') (pin_sheet ?e2) (pin_first_sheet ?e2)) \<noteq> []"
    by code_simp
  have r2: "snd (run ?e2) = None"
    using fatal_conditions_write_nothing [of ?e2] nodir by blast
  have r3: "fst (run ?e2) = header_lines ?e2
                    @ fst (load_pin_database (path_join (base_directory ?e2) ''PIN.xlsx'') (pin_sheet ?e2) (pin_first_sheet ?e2))
                    @ fst (load_sender_details ?e2)
                    @ [Line (''Input directory not found: '' @ path_join (base_directory ?e2) ''Input'')]"
    using fatal_conditions_write_nothing [of ?e2] nodir loaded by blast
  have l3: "last (fst (run ?e2)) = Line ''Input directory not found: /data/Input''"
    unfolding r3 by (simp add: path_join_def)
  from r1 lines1 r2 l3 show ?thesis by simp
qed


section \<open>C9: the sender fields of an appended frame\<close>

text \<open>
  Claim C9 says that the branch blanking the six sender fields is never taken, so that
  every row appended to the merged batch carries sender fields copied from the first
  matching sender row, never blank-defaulted ones. The branch is indeed never taken,
  but the fields are read with \<open>sender_info.get(field, '')\<close>, and that default is
  the empty text whenever the sender table has no column of the field's name. The
  sender table below has the columns \<open>File Name Contain\<close> and \<open>SenderCity\<close>
  only; its second row matches the file \<open>abc-1.xlsx\<close>, the frame of the file is
  appended, and the \<open>SenderName\<close> of its one row is the empty text.
\<close>

theorem sender_field_blank_counterexample:
  "''SenderName'' \<notin> set (labels \<lparr>labels = [''File Name Contain'', ''SenderCity''],
         rows = [(\<lambda>c. NaN)(''File Name Contain'' := Str ''XYZ Corp'', ''SenderCity'' := Str ''Agra''),
                 (\<lambda>c. NaN)(''File Name Contain'' := Str ''ABC Bank'', ''SenderCity'' := Str ''Pune''),
                 (\<lambda>c. NaN)(''File Name Contain'' := Str ''abc'', ''SenderCity'' := Str ''Delhi'')]\<rparr>)
   \<and> (case snd (file_outcome (\<lambda>p. None) \<lparr>labels = [''File Name Contain'', ''SenderCity''],
         rows = [(\<lambda>c. NaN)(''File Name Contain'' := Str ''XYZ Corp'', ''SenderCity'' := Str ''Agra''),
                 (\<lambda>c. NaN)(''File Name Contain'' := Str ''ABC Bank'', ''SenderCity'' := Str ''Pune''),
                 (\<lambda>c. NaN)(''File Name Contain'' := Str ''abc'', ''SenderCity'' := Str ''Delhi'')]\<rparr> \<lparr>fname = ''abc-1.xlsx'',
          read_result = Inr (\<lparr>labels = [''Name''], rows = [(\<lambda>c. NaN)(''Name'' := Str ''Asha'')]\<rparr>,
                             ''Sheet1'')\<rparr>) of
         Appended out \<Rightarrow> length (rows out) = 1
                          \<and> list_all (\<lambda>r. r ''SenderName'' = Str []) (rows out)
       | NoSender \<Rightarrow> False | Errored \<Rightarrow> False)"
proof -
  define r0 where "r0 = (\<lambda>c. NaN)(''File Name Contain'' := Str ''XYZ Corp'', ''SenderCity'' := Str ''Agra'')"
  define r1 where "r1 = (\<lambda>c. NaN)(''File Name Contain'' := Str ''ABC Bank'', ''SenderCity'' := Str ''Pune'')"
  define r2 where "r2 = (\<lambda>c. NaN)(''File Name Contain'' := Str ''abc'', ''SenderCity'' := Str ''Delhi'')"
  define sd where "sd = \<lparr>labels = [''File Name Contain'', ''SenderCity''], rows = [r0, r1, r2]\<rparr>"
  define df where "df = \<lparr>labels = [''Name''], rows = [(\<lambda>c. NaN)(''Name'' := Str ''Asha'')]\<rparr>"
  define f where "f = \<lparr>fname = ''abc-1.xlsx'', read_result = Inr (df, ''Sheet1'')\<rparr>"
  have key: "base_filename ''abc-1.xlsx'' = ''abc''" by code_simp
  have lit: "is_literal ''abc''" by code_simp
  have m0: "\<not> ci_contains ''abc'' ''XYZ Corp''" by code_simp
  have m1: "ci_contains ''abc'' ''ABC Bank''" by code_simp
  have m2: "ci_contains ''abc'' ''abc''" by code_simp
  have x: "is_excel ''abc-1.xlsx''" by code_simp
  have fs: "find_sender (\<lambda>p. None) sd (base_filename (fname f)) = Inr [r1, r2]"
    by (simp add: f_def key find_sender_def df_empty_def compile_ignorecase_def lit sd_def
        r0_def r1_def r2_def m0 m1 m2)
  have na: "get_matching_columns (snd (apply_mapping df)) address_columns = []"
    unfolding df_def by (rule example_no_address)
  obtain l' out where en:
    "enrich (fname f) (if is_excel (fname f) then ''Sheet1'' else []) sd [r1, r2] df = (l', Inr out)"
    using enrich_no_address [OF na] by blast
  have rd: "read_result f = Inr (df, ''Sheet1'')" by (simp add: f_def)
  obtain l where fo: "file_outcome (\<lambda>p. None) sd f = (l, Appended out)"
    using file_outcome_Appended_intro [OF rd fs _ en] by blast
  have n: "length (rows out) = 1"
    using enrich_length [OF en] by (simp add: df_def)
  have "\<forall>r \<in> set (rows out). r ''SenderName'' = Str []"
  proof
    fix r assume "r \<in> set (rows out)"
    from enrich_sender [OF en _ this, of "''SenderName''"]
    show "r ''SenderName'' = Str []"
      by (simp add: sender_fields_def sender_get_def sd_def)
  qed
  then have b: "list_all (\<lambda>r. r ''SenderName'' = Str []) (rows out)"
    by (simp add: list_all_iff)
  have p1: "''SenderName'' \<notin> set (labels sd)" by (simp add: sd_def)
  have p2: "(case snd (file_outcome (\<lambda>p. None) sd f) of
         Appended out \<Rightarrow> length (rows out) = 1
                          \<and> list_all (\<lambda>r. r ''SenderName'' = Str []) (rows out)
       | NoSender \<Rightarrow> False | Errored \<Rightarrow> False)"
    unfolding fo using n b by simp
  from p1 p2 show ?thesis
    unfolding sd_def f_def df_def r0_def r1_def r2_def by (rule conjI)
qed

text \<open>
  Claim C9, amended. The line \<open>No sender details found for ...\<close>, which the
  blank-default branch logs before it blanks the fields, is logged for no file,
  whatever the file, the sender table and the regular expression engine. And when the
  frame of a file is appended (the file name, the headers of the file and the keys of
  the sender table being ASCII, and the headers not colliding under the rename), the
  key of the file name compiles to a matcher \<open>m\<close>; the sender table has a row
  \<open>info\<close> whose \<open>File Name Contain\<close> is a text that \<open>m\<close> accepts, no row
  before it having one; and every row of the frame holds, under each of the six
  sender fields, the cell of \<open>info\<close> in the column of that name, or the empty text
  if the sender table has no such column.
\<close>

theorem sender_fields_from_first_match:
  "Line (''No sender details found for '' @ x) \<notin> set (fst (file_outcome eng sd f))
   \<and> (file_outcome eng sd f = (l, Appended out) \<and> read_result f = Inr (df, sh)
        \<and> is_ascii (fname f)
        \<and> list_all (\<lambda>r. is_ascii (py_str (r ''File Name Contain''))) (rows sd)
        \<and> list_all is_ascii (labels df)
        \<and> distinct (labels (snd (apply_mapping df))) \<longrightarrow>
        (\<exists>m before info rest.
             compile_ignorecase eng (base_filename (fname f)) = Some m
           \<and> rows sd = before @ info # rest
           \<and> contains_cell m (info ''File Name Contain'')
           \<and> list_all (\<lambda>r. \<not> contains_cell m (r ''File Name Contain'')) before
           \<and> (\<forall>field \<in> set sender_fields. \<forall>r \<in> set (rows out).
                 r field = (if field \<in> set (labels sd) then info field else Str []))))"
proof (intro conjI impI)
  show "Line (''No sender details found for '' @ x) \<notin> set (fst (file_outcome eng sd f))"
    by (rule file_outcome_lines)
next
  assume hyp: "file_outcome eng sd f = (l, Appended out) \<and> read_result f = Inr (df, sh)
        \<and> is_ascii (fname f)
        \<and> list_all (\<lambda>r. is_ascii (py_str (r ''File Name Contain''))) (rows sd)
        \<and> list_all is_ascii (labels df)
        \<and> distinct (labels (snd (apply_mapping df)))"
  then have fo: "file_outcome eng sd f = (l, Appended out)" by (rule conjunct1)
  from file_outcome_Appended [OF fo] obtain df' sh' info rest l' where
    fs: "find_sender eng sd (base_filename (fname f)) = Inr (info # rest)" and
    en: "enrich (fname f) (if is_excel (fname f) then sh' else []) sd (info # rest) df' = (l', Inr out)"
    by blast
  from find_sender_first [OF fs] obtain m before after where
    first: "compile_ignorecase eng (base_filename (fname f)) = Some m"
      "rows sd = before @ info # after"
      "contains_cell m (info ''File Name Contain'')"
      "list_all (\<lambda>r. \<not> contains_cell m (r ''File Name Contain'')) before"
    by blast
  have "\<forall>field \<in> set sender_fields. \<forall>r \<in> set (rows out).
          r field = (if field \<in> set (labels sd) then info field else Str [])"
    using enrich_sender [OF en] by (simp add: sender_get_def)
  with first show "(\<exists>m before info rest.
             compile_ignorecase eng (base_filename (fname f)) = Some m
           \<and> rows sd = before @ info # rest
           \<and> contains_cell m (info ''File Name Contain'')
           \<and> list_all (\<lambda>r. \<not> contains_cell m (r ''File Name Contain'')) before
           \<and> (\<forall>field \<in> set sender_fields. \<forall>r \<in> set (rows out).
                 r field = (if field \<in> set (labels sd) then info field else Str [])))"
    by blast
qed

text \<open>The sender table of three rows met above, whose second and third rows match
  \<open>abc-1.xlsx\<close>: the row of the frame carries the city of the second row.\<close>

theorem sender_fields_from_first_match_witness:
  "Line ''No sender details found for abc-1.xlsx''
     \<notin> set (fst (file_outcome (\<lambda>p. None) \<lparr>labels = [''File Name Contain'', ''SenderCity''],
         rows = [(\<lambda>c. NaN)(''File Name Contain'' := Str ''XYZ Corp'', ''SenderCity'' := Str ''Agra''),
                 (\<lambda>c. NaN)(''File Name Contain'' := Str ''ABC Bank'', ''SenderCity'' := Str ''Pune''),
                 (\<lambda>c. NaN)(''File Name Contain'' := Str ''abc'', ''SenderCity'' := Str ''Delhi'')]\<rparr> \<lparr>fname = ''abc-1.xlsx'',
          read_result = Inr (\<lparr>labels = [''Name''], rows = [(\<lambda>c. NaN)(''Name'' := Str ''Asha'')]\<rparr>,
                             ''Sheet1'')\<rparr>))
   \<and> (case snd (file_outcome (\<lambda>p. None) \<lparr>labels = [''File Name Contain'', ''SenderCity''],
         rows = [(\<lambda>c. NaN)(''File Name Contain'' := Str ''XYZ Corp'', ''SenderCity'' := Str ''Agra''),
                 (\<lambda>c. NaN)(''File Name Contain'' := Str ''ABC Bank'', ''SenderCity'' := Str ''Pune''),
                 (\<lambda>c. NaN)(''File Name Contain'' := Str ''abc'', ''SenderCity'' := Str ''Delhi'')]\<rparr> \<lparr>fname = ''abc-1.xlsx'',
          read_result = Inr (\<lparr>labels = [''Name''], rows = [(\<lambda>c. NaN)(''Name'' := Str ''Asha'')]\<rparr>,
                             ''Sheet1'')\<rparr>) of
         Appended out \<Rightarrow> list_all (\<lambda>r. r ''SenderCity'' = Str ''Pune'') (rows out)
       | NoSender \<Rightarrow> False | Errored \<Rightarrow> False)"
proof -
  define r0 where "r0 = (\<lambda>c. NaN)(''File Name Contain'' := Str ''XYZ Corp'', ''SenderCity'' := Str ''Agra'')"
  define r1 where "r1 = (\<lambda>c. NaN)(''File Name Contain'' := Str ''ABC Bank'', ''SenderCity'' := Str ''Pune'')"
  define r2 where "r2 = (\<lambda>c. NaN)(''File Name Contain'' := Str ''abc'', ''SenderCity'' := Str ''Delhi'')"
  define sd where "sd = \<lparr>labels = [''File Name Contain'', ''SenderCity''], rows = [r0, r1, r2]\<rparr>"
  define df where "df = \<lparr>labels = [''Name''], rows = [(\<lambda>c. NaN)(''Name'' := Str ''Asha'')]\<rparr>"
  define f where "f = \<lparr>fname = ''abc-1.xlsx'', read_result = Inr (df, ''Sheet1'')\<rparr>"
  have key: "base_filename ''abc-1.xlsx'' = ''abc''" by code_simp
  have lit: "is_literal ''abc''" by code_simp
  have m0: "\<not> ci_contains ''abc'' ''XYZ Corp''" by code_simp
  have m1: "ci_contains ''abc'' ''ABC Bank''" by code_simp
  have m2: "ci_contains ''abc'' ''abc''" by code_simp
  have c0: "\<not> contains_cell (ci_contains ''abc'') (r0 ''File Name Contain'')"
    by (simp add: r0_def m0)
  have c1: "contains_cell (ci_contains ''abc'') (r1 ''File Name Contain'')"
    by (simp add: r1_def m1)
  have fs: "find_sender (\<lambda>p. None) sd (base_filename (fname f)) = Inr [r1, r2]"
    by (simp add: f_def key find_sender_def df_empty_def compile_ignorecase_def lit sd_def
        r0_def r1_def r2_def m0 m1 m2)
  have na: "get_matching_columns (snd (apply_mapping df)) address_columns = []"
    unfolding df_def by (rule example_no_address)
  obtain l' out where en:
    "enrich (fname f) (if is_excel (fname f) then ''Sheet1'' else []) sd [r1, r2] df = (l', Inr out)"
    using enrich_no_address [OF na] by blast
  have rd: "read_result f = Inr (df, ''Sheet1'')" by (simp add: f_def)
  obtain l where fo: "file_outcome (\<lambda>p. None) sd f = (l, Appended out)"
    using file_outcome_Appended_intro [OF rd fs _ en] by blast
  have asc: "is_ascii (fname f)" by (simp add: f_def is_ascii_def)
  have keys: "list_all (\<lambda>r. is_ascii (py_str (r ''File Name Contain''))) (rows sd)"
    by (simp add: sd_def r0_def r1_def r2_def is_ascii_def)
  have heads: "list_all is_ascii (labels df)" by (simp add: df_def is_ascii_def)
  have nocoll: "distinct (labels (snd (apply_mapping df)))"
    unfolding df_def by (simp add: example_mapping)
  note inst = sender_fields_from_first_match
                [of "''abc-1.xlsx''" "\<lambda>p. None" sd f l out df "''Sheet1''"]
  have nl: "Line (''No sender details found for '' @ ''abc-1.xlsx'')
              \<notin> set (fst (file_outcome (\<lambda>p. None) sd f))"
    using inst by blast
  from inst fo rd asc keys heads nocoll obtain m before info rest where
    cm: "compile_ignorecase (\<lambda>p. None) (base_filename (fname f)) = Some m" and
    rs: "rows sd = before @ info # rest" and
    hit: "contains_cell m (info ''File Name Contain'')" and
    miss: "list_all (\<lambda>r. \<not> contains_cell m (r ''File Name Contain'')) before" and
    all: "\<forall>field \<in> set sender_fields. \<forall>r \<in> set (rows out).
                 r field = (if field \<in> set (labels sd) then info field else Str [])"
    by blast
  have m: "m = ci_contains ''abc''"
    using cm by (simp add: f_def key compile_ignorecase_def lit)
  have "[r0, r1, r2] = before @ info # rest"
    using rs by (simp add: sd_def)
  then consider "before = []" "info = r0" | "before = [r0]" "info = r1"
    | "before = [r0, r1]" "info = r2"
    by (cases before; cases "tl before"; cases "tl (tl before)") auto
  then have info: "info = r1"
  proof cases
    case 1
    with hit c0 m show ?thesis by simp
  next
    case 2
    then show ?thesis by simp
  next
    case 3
    with miss c1 m show ?thesis by simp
  qed
  have "\<forall>r \<in> set (rows out). r ''SenderCity'' = Str ''Pune''"
    using all [THEN bspec, of "''SenderCity''"] unfolding info
    by (simp add: sender_fields_def sd_def r1_def)
  then have city: "list_all (\<lambda>r. r ''SenderCity'' = Str ''Pune'') (rows out)"
    by (simp add: list_all_iff)
  have p2: "(case snd (file_outcome (\<lambda>p. None) sd f) of
         Appended out \<Rightarrow> list_all (\<lambda>r. r ''SenderCity'' = Str ''Pune'') (rows out)
       | NoSender \<Rightarrow> False | Errored \<Rightarrow> False)"
    unfolding fo using city by simp
  have p1: "Line ''No sender details found for abc-1.xlsx''
              \<notin> set (fst (file_outcome (\<lambda>p. None) sd f))"
    using nl by simp
  from p1 p2 show ?thesis
    unfolding sd_def f_def df_def r0_def r1_def r2_def by (rule conjI)
qed


section \<open>C10: the pincodes after the backfill pass\<close>

text \<open>
  Claim C10 says that after the backfill pass every \<open>AddrePincode\<close> is the empty text
  or six digits. A row without a pincode whose address holds \<open>400\<close>, a line feed and
  \<open>001\<close> leaves the pass with a pincode of seven characters, the line feed among
  them, since \<open>extract_pincode_from_text\<close> returns the match with that separator.
\<close>

theorem backfill_pincode_not_six_digits:
  "map (\<lambda>r. r ''AddrePincode'')
     (rows (snd (process_pincodes_and_cities
        \<lparr>labels = output_columns,
         rows = [(\<lambda>c. Str [])(''AddreADD1'' := Str (''MG Road 400'' @ [CHR 0x0A] @ ''001''))]\<rparr>
        [(''400001'', ''MUMBAI'')])))
   = [Str (''400'' @ [CHR 0x0A] @ ''001'')]"
  by code_simp

end
